theory Spec2Isabelle
  imports Main "HOL-Library.AList" "HOL-Library.Multiset" "HOL-Library.Word"
begin

section \<open>The shadow API server (pkg/hub/apiserver/shadow/apiserver.go)\<close>

subsection \<open>Values handed over by the discovery client\<close>

text \<open>
  The Kubernetes types the installer reads. Field names carry a short prefix of their
  struct, since several structs share the names \<open>Name\<close>, \<open>Group\<close> and \<open>Version\<close>.
\<close>

record GroupVersion =
  gv_Group :: string
  gv_Version :: string

record GroupVersionKind =
  gvk_Group :: string
  gvk_Version :: string
  gvk_Kind :: string

record GroupVersionForDiscovery =
  gvd_GroupVersion :: string
  gvd_Version :: string

record APIGroup =
  ag_Name :: string
  ag_Versions :: "GroupVersionForDiscovery list"
  ag_PreferredVersion :: GroupVersionForDiscovery

record APIResource =
  ar_Name :: string
  ar_Namespaced :: bool
  ar_Kind :: string
  ar_ShortNames :: "string list"

text \<open>
  \<open>restmapper.APIGroupResources\<close>: \<open>VersionedResources\<close> is a Go map that is only looked up;
  a missing key reads as the nil slice.
\<close>

record APIGroupResources =
  agr_Group :: APIGroup
  agr_VersionedResources :: "string \<rightharpoonup> APIResource list"

subsection \<open>The storage adapter\<close>

text \<open>
  Modelled from the spec: \<open>template.REST\<close> with its constructor and setters
  lives in another package (pkg/registry/shadow/template). The spec describes
  the adapter as constructed with a fixed descriptor (name, kind, group, version, namespaced
  flag, short names); the record holds exactly these, each setter stores its argument. The
  client handles and the parameter codec passed to \<open>NewREST\<close> are the same for every adapter
  and are left out.
\<close>

record REST =
  rest_name :: string
  rest_shortNames :: "string list"
  rest_namespaced :: bool
  rest_kind :: string
  rest_group :: string
  rest_version :: string

definition NewREST :: REST where
  "NewREST = \<lparr>rest_name = [], rest_shortNames = [], rest_namespaced = False,
              rest_kind = [], rest_group = [], rest_version = []\<rparr>"

definition SetNamespaceScoped :: "bool \<Rightarrow> REST \<Rightarrow> REST" where
  "SetNamespaceScoped b r = r\<lparr>rest_namespaced := b\<rparr>"

definition SetName :: "string \<Rightarrow> REST \<Rightarrow> REST" where
  "SetName n r = r\<lparr>rest_name := n\<rparr>"

definition SetShortNames :: "string list \<Rightarrow> REST \<Rightarrow> REST" where
  "SetShortNames ns r = r\<lparr>rest_shortNames := ns\<rparr>"

definition SetKind :: "string \<Rightarrow> REST \<Rightarrow> REST" where
  "SetKind k r = r\<lparr>rest_kind := k\<rparr>"

definition SetGroup :: "string \<Rightarrow> REST \<Rightarrow> REST" where
  "SetGroup g r = r\<lparr>rest_group := g\<rparr>"

definition SetVersion :: "string \<Rightarrow> REST \<Rightarrow> REST" where
  "SetVersion v r = r\<lparr>rest_version := v\<rparr>"

text \<open>
  A Go \<open>map[string]rest.Storage\<close> is an association list with distinct keys: \<open>m[k] = v\<close> is
  \<open>AList.update k v m\<close>, \<open>len(m) == 0\<close> is \<open>m = []\<close>. The order of the list carries no
  meaning: where the code ranges over a map, the order of the visit is taken from the
  environment (see \<open>rangeOrder\<close> below).
\<close>

type_synonym Storage = "(string \<times> REST) list"

subsection \<open>Group descriptors and what gets installed\<close>

record APIGroupInfo =
  PrioritizedVersions :: "GroupVersion list"
  VersionedResourcesStorageMap :: "string \<rightharpoonup> Storage"
  OptionsExternalVersion :: "GroupVersion option"

text \<open>
  \<open>genericapi.APIGroupVersion\<close>, restricted to the fields that differ between two calls of
  \<open>newAPIGroupVersion\<close> on the same server or that the installer sets afterwards. The
  request timeout is \<open>time.Duration(minRequestTimeout) * time.Second\<close>, a 64-bit product.
\<close>

record APIGroupVersion =
  agv_GroupVersion :: GroupVersion
  agv_Root :: string
  agv_Storage :: Storage
  agv_OptionsExternalVersion :: "GroupVersion option"
  agv_MaxRequestBodyBytes :: "64 word"
  agv_MinRequestTimeout :: "64 word"

record ResourceInfo =
  ri_Group :: string
  ri_Resource :: string
  ri_EncodingVersion :: string

text \<open>
  What the go-restful container holds after the installer has run: the web service of a
  published group version (added by \<open>InstallREST\<close>) and the web service answering
  \<open>/apis/<group>\<close> (added by \<open>installAPIGroups\<close>).
\<close>

datatype WebService =
    VersionRoutes APIGroupVersion
  | GroupHandler APIGroup

text \<open>
  The state the installer writes: the fields of \<open>ShadowAPIServer\<close> it reads, the
  package-level \<open>Scheme\<close> (as the sequence of registered kinds), and the three parts of the
  generic API server it publishes into.
\<close>

record ShadowAPIServer =
  maxRequestBodyBytes :: "64 word"
  minRequestTimeout :: "64 word"
  Scheme :: "GroupVersionKind list"
  GoRestfulContainer :: "WebService list"
  DiscoveryGroupManager :: "APIGroup list"
  StorageVersionManager :: "ResourceInfo list"

text \<open>
  What the code takes from outside this file:
  \<^item> the constants \<open>shadowapi.GroupName\<close> and \<open>shadowapi.SchemeGroupVersion.Version\<close>;
  \<^item> the two feature gates;
  \<^item> the result pair of \<open>InstallREST\<close> on a group version;
  \<^item> \<open>strings.ToLower\<close>;
  \<^item> the order in which a \<open>range\<close> over a storage map visits its entries, which Go leaves
    unspecified: \<open>rangeOrder\<close> proposes one.
\<close>

record env =
  shadowapi_GroupName :: string
  shadowapi_Version :: string
  StorageVersionAPI :: bool
  APIServerIdentity :: bool
  InstallREST :: "APIGroupVersion \<Rightarrow> ResourceInfo list \<times> string option"
  ToLower :: "string \<Rightarrow> string"
  rangeOrder :: "Storage \<Rightarrow> Storage"

text \<open>
  A \<open>range\<close> visits every entry of the map exactly once: the proposed order is followed
  when it is a rearrangement of the entries, and the entries are visited as stored
  otherwise. Every order Go may choose is \<open>rangeOver e m\<close> for some \<open>e\<close>.
\<close>

definition rangeOver :: "env \<Rightarrow> Storage \<Rightarrow> Storage" where
  "rangeOver e m = (if mset (rangeOrder e m) = mset m then rangeOrder e m else m)"

datatype error =
    DiscoveryFailed string
  | EmptyGroup APIGroupInfo
  | EmptyVersion APIGroupInfo
  | UnableToSetupAPI APIGroupInfo string
  | UnableToInstallAPIResources error

text \<open>
  How a call ends: \<open>return nil\<close>, \<open>return err\<close>, or a run-time panic (the index
  expression \<open>PrioritizedVersions[0]\<close> on an empty slice).
\<close>

datatype outcome = ReturnNil | ReturnErr error | Panic

subsection \<open>Constants and library functions\<close>

definition clusternetGroupSuffix :: string where
  "clusternetGroupSuffix = ''.clusternet.io''"

definition APIGroupPrefix :: string where
  "APIGroupPrefix = ''/apis''"

definition HasSuffix :: "string \<Rightarrow> string \<Rightarrow> bool" where
  "HasSuffix s suffix \<longleftrightarrow>
     length s \<ge> length suffix \<and> drop (length s - length suffix) s = suffix"

text \<open>\<open>schema.GroupVersion.String\<close>: the version alone for the empty group.\<close>

definition GroupVersion_String :: "GroupVersion \<Rightarrow> string" where
  "GroupVersion_String gv =
     (if length (gv_Group gv) > 0 then gv_Group gv @ ''/'' @ gv_Version gv else gv_Version gv)"

definition WithKind :: "GroupVersion \<Rightarrow> string \<Rightarrow> GroupVersionKind" where
  "WithKind gv kind = \<lparr>gvk_Group = gv_Group gv, gvk_Version = gv_Version gv, gvk_Kind = kind\<rparr>"

text \<open>\<open>m[v]\<close> on the versioned storage map: a missing version reads as the nil map.\<close>

definition storageOf :: "APIGroupInfo \<Rightarrow> string \<Rightarrow> Storage" where
  "storageOf info v = (case VersionedResourcesStorageMap info v of None \<Rightarrow> [] | Some m \<Rightarrow> m)"

subsection \<open>getAPIGroupVersion and newAPIGroupVersion\<close>

definition newAPIGroupVersion :: "ShadowAPIServer \<Rightarrow> APIGroupInfo \<Rightarrow> GroupVersion \<Rightarrow> APIGroupVersion" where
  "newAPIGroupVersion ss info groupVersion =
     \<lparr>agv_GroupVersion = groupVersion,
      agv_Root = [],
      agv_Storage = [],
      agv_OptionsExternalVersion = None,
      agv_MaxRequestBodyBytes = 0,
      agv_MinRequestTimeout = minRequestTimeout ss * 1000000000\<rparr>"

text \<open>The loop \<open>for k, v := range ... { storage[strings.ToLower(k)] = v }\<close>.\<close>

fun lowerKeys :: "env \<Rightarrow> Storage \<Rightarrow> Storage \<Rightarrow> Storage" where
  "lowerKeys e [] storage = storage"
| "lowerKeys e ((k, v) # kvs) storage = lowerKeys e kvs (AList.update (ToLower e k) v storage)"

definition getAPIGroupVersion ::
    "env \<Rightarrow> ShadowAPIServer \<Rightarrow> APIGroupInfo \<Rightarrow> GroupVersion \<Rightarrow> string \<Rightarrow> APIGroupVersion" where
  "getAPIGroupVersion e ss info groupVersion apiPrefix =
     (let storage = lowerKeys e (rangeOver e (storageOf info (gv_Version groupVersion))) [];
          version = newAPIGroupVersion ss info groupVersion
      in version\<lparr>agv_Root := apiPrefix, agv_Storage := storage\<rparr>)"

subsection \<open>installAPIResources\<close>

text \<open>
  The loop over \<open>PrioritizedVersions\<close>. \<open>InstallREST\<close> adds the web service of the group
  version to the container and reports its registration errors afterwards, so the
  container has grown also when the call fails.
\<close>

fun installVersions ::
    "env \<Rightarrow> ShadowAPIServer \<Rightarrow> string \<Rightarrow> APIGroupInfo \<Rightarrow> GroupVersion list \<Rightarrow> ResourceInfo list
       \<Rightarrow> ShadowAPIServer \<times> (error + ResourceInfo list)" where
  "installVersions e ss apiPrefix info [] resourceInfos = (ss, Inr resourceInfos)"
| "installVersions e ss apiPrefix info (groupVersion # rest) resourceInfos =
     (if length (storageOf info (gv_Version groupVersion)) = 0
      then installVersions e ss apiPrefix info rest resourceInfos
      else
        let v0 = getAPIGroupVersion e ss info groupVersion apiPrefix;
            v1 = (case OptionsExternalVersion info of
                    None \<Rightarrow> v0
                  | Some ov \<Rightarrow> v0\<lparr>agv_OptionsExternalVersion := Some ov\<rparr>);
            apiGroupVersion = v1\<lparr>agv_MaxRequestBodyBytes := maxRequestBodyBytes ss\<rparr>;
            ss' = ss\<lparr>GoRestfulContainer := GoRestfulContainer ss @ [VersionRoutes apiGroupVersion]\<rparr>
        in (case InstallREST e apiGroupVersion of
              (r, Some err) \<Rightarrow> (ss', Inl (UnableToSetupAPI info err))
            | (r, None) \<Rightarrow> installVersions e ss' apiPrefix info rest (resourceInfos @ r)))"

definition installAPIResources ::
    "env \<Rightarrow> ShadowAPIServer \<Rightarrow> string \<Rightarrow> APIGroupInfo \<Rightarrow> ShadowAPIServer \<times> outcome" where
  "installAPIResources e ss apiPrefix info =
     (case installVersions e ss apiPrefix info (PrioritizedVersions info) [] of
        (ss', Inl err) \<Rightarrow> (ss', ReturnErr err)
      | (ss', Inr resourceInfos) \<Rightarrow>
          (if StorageVersionAPI e \<and> APIServerIdentity e
           then (ss'\<lparr>StorageVersionManager := StorageVersionManager ss' @ resourceInfos\<rparr>, ReturnNil)
           else (ss', ReturnNil)))"

subsection \<open>installAPIGroups\<close>

text \<open>
  The first loop: every descriptor of the batch is checked before anything is installed.
  The descriptors are passed as pointers, none of them nil; the model takes the
  descriptors.
\<close>

fun validateGroups :: "APIGroupInfo list \<Rightarrow> outcome" where
  "validateGroups [] = ReturnNil"
| "validateGroups (info # infos) =
     (case PrioritizedVersions info of
        [] \<Rightarrow> Panic
      | gv0 # _ \<Rightarrow>
          if length (gv_Group gv0) = 0 then ReturnErr (EmptyGroup info)
          else if length (gv_Version gv0) = 0 then ReturnErr (EmptyVersion info)
          else validateGroups infos)"

text \<open>The versions listed for discovery: those with at least one resource, in order.\<close>

fun versionsForDiscovery :: "APIGroupInfo \<Rightarrow> GroupVersion list \<Rightarrow> GroupVersionForDiscovery list" where
  "versionsForDiscovery info [] = []"
| "versionsForDiscovery info (groupVersion # rest) =
     (if length (storageOf info (gv_Version groupVersion)) = 0
      then versionsForDiscovery info rest
      else \<lparr>gvd_GroupVersion = GroupVersion_String groupVersion,
            gvd_Version = gv_Version groupVersion\<rparr> # versionsForDiscovery info rest)"

text \<open>The second loop: install the resources of a group, then publish its discovery entry.\<close>

fun installGroups :: "env \<Rightarrow> ShadowAPIServer \<Rightarrow> APIGroupInfo list \<Rightarrow> ShadowAPIServer \<times> outcome" where
  "installGroups e ss [] = (ss, ReturnNil)"
| "installGroups e ss (info # infos) =
     (case installAPIResources e ss APIGroupPrefix info of
        (ss1, ReturnErr err) \<Rightarrow> (ss1, ReturnErr (UnableToInstallAPIResources err))
      | (ss1, Panic) \<Rightarrow> (ss1, Panic)
      | (ss1, ReturnNil) \<Rightarrow>
          (case PrioritizedVersions info of
             [] \<Rightarrow> (ss1, Panic)
           | gv0 # _ \<Rightarrow>
               let apiVersionsForDiscovery = versionsForDiscovery info (PrioritizedVersions info);
                   preferredVersionForDiscovery =
                     \<lparr>gvd_GroupVersion = GroupVersion_String gv0, gvd_Version = gv_Version gv0\<rparr>;
                   apiGroup = \<lparr>ag_Name = gv_Group gv0,
                               ag_Versions = apiVersionsForDiscovery,
                               ag_PreferredVersion = preferredVersionForDiscovery\<rparr>;
                   ss2 = ss1\<lparr>DiscoveryGroupManager := DiscoveryGroupManager ss1 @ [apiGroup]\<rparr>;
                   ss3 = ss2\<lparr>GoRestfulContainer := GoRestfulContainer ss2 @ [GroupHandler apiGroup]\<rparr>
               in installGroups e ss3 infos))"

definition installAPIGroups :: "env \<Rightarrow> ShadowAPIServer \<Rightarrow> APIGroupInfo list \<Rightarrow> ShadowAPIServer \<times> outcome" where
  "installAPIGroups e ss apiGroupInfos =
     (case validateGroups apiGroupInfos of
        ReturnNil \<Rightarrow> installGroups e ss apiGroupInfos
      | out \<Rightarrow> (ss, out))"

subsection \<open>InstallShadowAPIGroups\<close>

text \<open>The adapter built for one resource of a group, at the group's preferred version.\<close>

definition resourceRest :: "string \<Rightarrow> string \<Rightarrow> APIResource \<Rightarrow> REST" where
  "resourceRest groupName preferredVersion apiresource =
     SetVersion preferredVersion
       (SetGroup groupName
         (SetKind (ar_Kind apiresource)
           (SetShortNames (ar_ShortNames apiresource)
             (SetName (ar_Name apiresource)
               (SetNamespaceScoped (ar_Namespaced apiresource) NewREST)))))"

text \<open>
  The inner loop over the resources of the preferred version: register the kind with the
  scheme, build the adapter, store it under the resource's name.
\<close>

fun mirrorResources ::
    "string \<Rightarrow> string \<Rightarrow> APIResource list \<Rightarrow> GroupVersionKind list \<times> Storage
       \<Rightarrow> GroupVersionKind list \<times> Storage" where
  "mirrorResources groupName preferredVersion [] acc = acc"
| "mirrorResources groupName preferredVersion (apiresource # rest) (scheme, storage) =
     mirrorResources groupName preferredVersion rest
       (scheme @ [WithKind \<lparr>gv_Group = groupName, gv_Version = preferredVersion\<rparr> (ar_Kind apiresource)],
        AList.update (ar_Name apiresource) (resourceRest groupName preferredVersion apiresource) storage)"

definition preferredResources :: "APIGroupResources \<Rightarrow> APIResource list" where
  "preferredResources g =
     (case agr_VersionedResources g (gvd_Version (ag_PreferredVersion (agr_Group g))) of
        None \<Rightarrow> []
      | Some rs \<Rightarrow> rs)"

text \<open>The outer loop over the discovered groups, with its two \<open>continue\<close> guards.\<close>

fun mirrorGroups ::
    "env \<Rightarrow> APIGroupResources list \<Rightarrow> GroupVersionKind list \<times> Storage
       \<Rightarrow> GroupVersionKind list \<times> Storage" where
  "mirrorGroups e [] acc = acc"
| "mirrorGroups e (apiGroupResource # rest) acc =
     (if HasSuffix (ag_Name (agr_Group apiGroupResource)) clusternetGroupSuffix
      then mirrorGroups e rest acc
      else if ag_Name (agr_Group apiGroupResource) = shadowapi_GroupName e
      then mirrorGroups e rest acc
      else mirrorGroups e rest
             (mirrorResources (ag_Name (agr_Group apiGroupResource))
                (gvd_Version (ag_PreferredVersion (agr_Group apiGroupResource)))
                (preferredResources apiGroupResource) acc))"

text \<open>
  \<open>genericapiserver.NewDefaultAPIGroupInfo\<close> followed by the two assignments of the
  source: an empty versioned storage map, options served at \<open>v1\<close>, the single prioritized
  version of the shadow group, and the built storage under the literal key \<open>v1alpha1\<close>.
\<close>

definition shadowAPIGroupInfo :: "env \<Rightarrow> Storage \<Rightarrow> APIGroupInfo" where
  "shadowAPIGroupInfo e shadowv1alpha1storage =
     \<lparr>PrioritizedVersions = [\<lparr>gv_Group = shadowapi_GroupName e, gv_Version = shadowapi_Version e\<rparr>],
      VersionedResourcesStorageMap = Map.empty(''v1alpha1'' \<mapsto> shadowv1alpha1storage),
      OptionsExternalVersion = Some \<lparr>gv_Group = [], gv_Version = ''v1''\<rparr>\<rparr>"

text \<open>
  The argument \<open>cl\<close> stands for the result pair of \<open>restmapper.GetAPIGroupResources(cl)\<close>:
  the discovered groups and the error, if any.
\<close>

definition InstallShadowAPIGroups ::
    "env \<Rightarrow> ShadowAPIServer \<Rightarrow> APIGroupResources list \<times> string option \<Rightarrow> ShadowAPIServer \<times> outcome" where
  "InstallShadowAPIGroups e ss cl =
     (case cl of
        (apiGroupResources, Some err) \<Rightarrow> (ss, ReturnErr (DiscoveryFailed err))
      | (apiGroupResources, None) \<Rightarrow>
          (case mirrorGroups e apiGroupResources (Scheme ss, []) of
             (scheme, shadowv1alpha1storage) \<Rightarrow>
               installAPIGroups e (ss\<lparr>Scheme := scheme\<rparr>) [shadowAPIGroupInfo e shadowv1alpha1storage]))"

section \<open>The cluster status controller (pkg/controllers/clusters/clusterstatus/clusterstatus_controller.go)\<close>

subsection \<open>Node statistics\<close>

text \<open>
  The parts of \<open>corev1.Node\<close> the controller reads. \<open>NodeConditionType\<close> and
  \<open>ConditionStatus\<close> are string types in Go, so a condition can carry any string, not only
  the constants below. A resource list of a node is read through \<open>Cpu()\<close> and
  \<open>Memory()\<close> only; quantities are unbounded integers. The lister's slice holds pointers
  to nodes, none of them nil; the model takes the nodes.
\<close>

record NodeCondition =
  nc_Type :: string
  nc_Status :: string

record NodeStatus =
  ns_Capacity :: "string \<rightharpoonup> int"
  ns_Allocatable :: "string \<rightharpoonup> int"
  ns_Conditions :: "NodeCondition list"

record Node =
  node_Status :: NodeStatus

text \<open>
  The constants \<open>corev1.NodeReady\<close>, \<open>corev1.ConditionTrue\<close>, \<open>corev1.ConditionFalse\<close>
  and \<open>corev1.ConditionUnknown\<close>.
\<close>

definition NodeReady :: string where "NodeReady = ''Ready''"

definition ConditionTrue :: string where "ConditionTrue = ''True''"

definition ConditionFalse :: string where "ConditionFalse = ''False''"

definition ConditionUnknown :: string where "ConditionUnknown = ''Unknown''"

text \<open>
  \<open>clusterapi.NodeStatistics\<close> is declared in pkg/apis/clusters/v1beta1; the controller
  uses its four counters and \<open>+= 1\<close> on them. The type of the counters is the parameter
  \<open>'n\<close>; the functions below take it to be a machine integer \<open>'a word\<close> of any width,
  so that \<open>+= 1\<close> wraps as Go's does.
\<close>

record 'n NodeStatistics =
  ReadyNodes :: 'n
  NotReadyNodes :: 'n
  UnknownNodes :: 'n
  LostNodes :: 'n

text \<open>
  The loop of \<open>getNodeCondition\<close> over \<open>status.Conditions\<close>, from index \<open>i\<close> on: the
  first condition of the wanted type, with its index.
\<close>

fun findCondition :: "NodeCondition list \<Rightarrow> string \<Rightarrow> nat \<Rightarrow> int \<times> NodeCondition option" where
  "findCondition [] conditionType i = (- 1, None)"
| "findCondition (c # cs) conditionType i =
     (if nc_Type c = conditionType then (int i, Some c) else findCondition cs conditionType (Suc i))"

text \<open>
  \<open>getNodeCondition\<close>: the argument is a pointer, \<open>None\<close> is the nil pointer.
\<close>

definition getNodeCondition :: "NodeStatus option \<Rightarrow> string \<Rightarrow> int \<times> NodeCondition option" where
  "getNodeCondition status conditionType =
     (case status of
        None \<Rightarrow> (- 1, None)
      | Some s \<Rightarrow> findCondition (ns_Conditions s) conditionType 0)"

text \<open>
  The loop of \<open>getNodeStatistics\<close>, with the statistics counted so far. The case of a
  flag other than \<open>-1\<close> with a nil condition would dereference nil (\<open>None\<close>); a \<open>switch\<close>
  without a matching case counts nothing.
\<close>

fun countNodes :: "Node list \<Rightarrow> 'a::len word NodeStatistics \<Rightarrow> 'a word NodeStatistics option" where
  "countNodes [] nodeStatistics = Some nodeStatistics"
| "countNodes (node # nodes) nodeStatistics =
     (case getNodeCondition (Some (node_Status node)) NodeReady of
        (flag, condition) \<Rightarrow>
          if flag = - 1
          then countNodes nodes (nodeStatistics\<lparr>LostNodes := LostNodes nodeStatistics + 1\<rparr>)
          else (case condition of
                  None \<Rightarrow> None
                | Some c \<Rightarrow>
                    if nc_Status c = ConditionTrue
                    then countNodes nodes (nodeStatistics\<lparr>ReadyNodes := ReadyNodes nodeStatistics + 1\<rparr>)
                    else if nc_Status c = ConditionFalse
                    then countNodes nodes (nodeStatistics\<lparr>NotReadyNodes := NotReadyNodes nodeStatistics + 1\<rparr>)
                    else if nc_Status c = ConditionUnknown
                    then countNodes nodes (nodeStatistics\<lparr>UnknownNodes := UnknownNodes nodeStatistics + 1\<rparr>)
                    else countNodes nodes nodeStatistics))"

definition getNodeStatistics :: "Node list \<Rightarrow> 'a::len word NodeStatistics option" where
  "getNodeStatistics nodes =
     countNodes nodes \<lparr>ReadyNodes = 0, NotReadyNodes = 0, UnknownNodes = 0, LostNodes = 0\<rparr>"

subsection \<open>The stored status\<close>

text \<open>
  The controller keeps a pointer to its status and hands out pointers to copies, so the
  objects live in an explicit heap: a list of objects, the address of an object being
  its index. \<open>new\<close> appends, which makes every new address different from all earlier
  ones. A \<open>corev1.ResourceList\<close> is a Go map, that is a reference to a map object.
\<close>

type_synonym addr = nat

type_synonym ResourceList = "string \<rightharpoonup> int"

text \<open>
  \<open>clusterapi.ManagedClusterStatus\<close> is declared in pkg/apis/clusters/v1beta1; the record
  has the fields \<open>collectingClusterStatus\<close> and \<open>setClusterStatus\<close> assign.
  \<open>Allocatable\<close> and \<open>Capacity\<close> are references to resource lists (\<open>None\<close> is the nil
  map), the time is a number.
\<close>

record 'n ManagedClusterStatus =
  KubernetesVersion :: string
  Platform :: string
  APIServerURL :: string
  Healthz :: bool
  Livez :: bool
  Readyz :: bool
  AppPusher :: bool
  UseSocket :: bool
  ParentAPIServerURL :: string
  ClusterCIDR :: string
  ServiceCIDR :: string
  NodeStatistics :: "'n NodeStatistics"
  Allocatable :: "addr option"
  Capacity :: "addr option"
  LastObservedTime :: int

datatype 'n object =
    StatusObject "'n ManagedClusterStatus"
  | ResourceListObject ResourceList

type_synonym 'n heap = "'n object list"

definition new :: "'n heap \<Rightarrow> 'n object \<Rightarrow> addr \<times> 'n heap" where
  "new h ob = (length h, h @ [ob])"

definition load :: "'n heap \<Rightarrow> addr \<Rightarrow> 'n object option" where
  "load h a = (if a < length h then Some (h ! a) else None)"

text \<open>
  The controller: the pointer to the last status (nil at first) and the configuration
  that goes into a status. Clients, listers and the mutex are left out; every function
  below runs under the lock, one call at a time.
\<close>

record Controller =
  clusterStatus :: "addr option"
  apiserverURL :: string
  appPusherEnabled :: bool
  useSocket :: bool
  parentAPIServer :: string

text \<open>
  The zero value that \<open>new(clusterapi.ManagedClusterStatus)\<close> allocates.
\<close>

definition zeroStatus :: "'a::len word ManagedClusterStatus" where
  "zeroStatus =
     \<lparr>KubernetesVersion = [], Platform = [], APIServerURL = [], Healthz = False, Livez = False,
      Readyz = False, AppPusher = False, UseSocket = False, ParentAPIServerURL = [],
      ClusterCIDR = [], ServiceCIDR = [],
      NodeStatistics = \<lparr>ReadyNodes = 0, NotReadyNodes = 0, UnknownNodes = 0, LostNodes = 0\<rparr>,
      Allocatable = None, Capacity = None, LastObservedTime = 0\<rparr>"

text \<open>
  \<open>setClusterStatus\<close>: the parameter \<open>status\<close> is a copy of the caller's struct (its
  resource lists are shared with the caller); \<open>&status\<close> moves it to the heap.
\<close>

definition setClusterStatus ::
    "Controller \<Rightarrow> 'a::len word heap \<Rightarrow> 'a word ManagedClusterStatus \<Rightarrow> int
       \<Rightarrow> Controller \<times> 'a word heap" where
  "setClusterStatus c h status now =
     (let (c1, h1) = (case clusterStatus c of
                        None \<Rightarrow> (case new h (StatusObject zeroStatus) of
                                   (a, h') \<Rightarrow> (c\<lparr>clusterStatus := Some a\<rparr>, h'))
                      | Some _ \<Rightarrow> (c, h));
          (p, h2) = new h1 (StatusObject status)
      in (c1\<lparr>clusterStatus := Some p\<rparr>,
          h2[p := StatusObject (status\<lparr>LastObservedTime := now\<rparr>)]))"

text \<open>
  Modelled from the spec: the generated deep-copy functions of
  \<open>ManagedClusterStatus\<close> (pkg/apis/clusters/v1beta1) are generated code of another
  package, and the spec leaves the status snapshot outside its scope. They are
  modelled as what their name says, a deep copy: a non-nil resource list is
  copied entry by entry into a newly made map.
\<close>

definition copyResourceList :: "'n heap \<Rightarrow> addr option \<Rightarrow> addr option \<times> 'n heap" where
  "copyResourceList h ao =
     (case ao of
        None \<Rightarrow> (None, h)
      | Some a \<Rightarrow>
          (case load h a of
             Some (ResourceListObject m) \<Rightarrow>
               (case new h (ResourceListObject m) of (a', h') \<Rightarrow> (Some a', h'))
           | _ \<Rightarrow> (None, h)))"

text \<open>
  Modelled from the spec: \<open>DeepCopy\<close> on a non-nil receiver allocates a new
  \<open>ManagedClusterStatus\<close>, copies every field into it and replaces the two
  resource lists by copies of their own.
\<close>

definition DeepCopy :: "'n heap \<Rightarrow> addr \<Rightarrow> addr option \<times> 'n heap" where
  "DeepCopy h p =
     (case load h p of
        Some (StatusObject s) \<Rightarrow>
          (let (out, h1) = new h (StatusObject s);
               (al, h2) = copyResourceList h1 (Allocatable s);
               (cp, h3) = copyResourceList h2 (Capacity s)
           in (Some out, h3[out := StatusObject (s\<lparr>Allocatable := al, Capacity := cp\<rparr>)]))
      | _ \<Rightarrow> (None, h))"

definition GetClusterStatus :: "Controller \<Rightarrow> 'n heap \<Rightarrow> addr option \<times> 'n heap" where
  "GetClusterStatus c h =
     (case clusterStatus c of
        None \<Rightarrow> (None, h)
      | Some p \<Rightarrow> DeepCopy h p)"

text \<open>
  \<open>ResourceList.Cpu()\<close> and \<open>ResourceList.Memory()\<close>: the entry, or the zero quantity.
\<close>

definition Cpu :: "ResourceList \<Rightarrow> int" where
  "Cpu rl = (case rl ''cpu'' of Some q \<Rightarrow> q | None \<Rightarrow> 0)"

definition Memory :: "ResourceList \<Rightarrow> int" where
  "Memory rl = (case rl ''memory'' of Some q \<Rightarrow> q | None \<Rightarrow> 0)"

text \<open>
  The loop of \<open>getNodeResource\<close>.
\<close>

fun sumResources :: "Node list \<Rightarrow> int \<times> int \<times> int \<times> int \<Rightarrow> int \<times> int \<times> int \<times> int" where
  "sumResources [] acc = acc"
| "sumResources (node # nodes) (capacityCpu, capacityMem, allocatableCpu, allocatableMem) =
     sumResources nodes
       (capacityCpu + Cpu (ns_Capacity (node_Status node)),
        capacityMem + Memory (ns_Capacity (node_Status node)),
        allocatableCpu + Cpu (ns_Allocatable (node_Status node)),
        allocatableMem + Memory (ns_Allocatable (node_Status node)))"

definition nodeResourceLists :: "Node list \<Rightarrow> ResourceList \<times> ResourceList" where
  "nodeResourceLists nodes =
     (case sumResources nodes (0, 0, 0, 0) of
        (capacityCpu, capacityMem, allocatableCpu, allocatableMem) \<Rightarrow>
          (Map.empty(''cpu'' \<mapsto> capacityCpu, ''memory'' \<mapsto> capacityMem),
           Map.empty(''cpu'' \<mapsto> allocatableCpu, ''memory'' \<mapsto> allocatableMem)))"

text \<open>
  \<open>getNodeResource\<close> makes two maps and fills them with the four sums.
\<close>

definition getNodeResource :: "'n heap \<Rightarrow> Node list \<Rightarrow> (addr \<times> addr) \<times> 'n heap" where
  "getNodeResource h nodes =
     (case nodeResourceLists nodes of
        (capacity, allocatable) \<Rightarrow>
          (case new h (ResourceListObject capacity) of
             (capacityAt, h1) \<Rightarrow>
               (case new h1 (ResourceListObject allocatable) of
                  (allocatableAt, h2) \<Rightarrow> ((capacityAt, allocatableAt), h2))))"

text \<open>
  What one round of \<open>collectingClusterStatus\<close> reads from outside: the server version
  (a nil pointer when the query failed: the error is only logged), the listed nodes
  (the nil slice when listing failed), the two CIDRs, the three health probes and the
  clock.
\<close>

record observation =
  obs_clusterVersion :: "(string \<times> string) option"
  obs_nodes :: "Node list"
  obs_clusterCIDR :: string
  obs_serviceCIDR :: string
  obs_healthz :: bool
  obs_livez :: bool
  obs_readyz :: bool
  obs_now :: int

text \<open>
  \<open>collectingClusterStatus\<close>. \<open>None\<close> is a panic: \<open>clusterVersion.GitVersion\<close> on a
  nil \<open>clusterVersion\<close>. A round that does not panic ends in \<open>setClusterStatus\<close>.
\<close>

definition collectingClusterStatus ::
    "Controller \<Rightarrow> 'a::len word heap \<Rightarrow> observation \<Rightarrow> (Controller \<times> 'a word heap) option" where
  "collectingClusterStatus c h obs =
     (case getNodeStatistics (obs_nodes obs) of
        None \<Rightarrow> None
      | Some nodeStatistics \<Rightarrow>
          (case getNodeResource h (obs_nodes obs) of
             ((capacity, allocatable), h1) \<Rightarrow>
               (case obs_clusterVersion obs of
                  None \<Rightarrow> None
                | Some (gitVersion, platform) \<Rightarrow>
                    Some (setClusterStatus c h1
                      \<lparr>KubernetesVersion = gitVersion, Platform = platform,
                       APIServerURL = apiserverURL c,
                       Healthz = obs_healthz obs, Livez = obs_livez obs, Readyz = obs_readyz obs,
                       AppPusher = appPusherEnabled c, UseSocket = useSocket c,
                       ParentAPIServerURL = parentAPIServer c,
                       ClusterCIDR = obs_clusterCIDR obs, ServiceCIDR = obs_serviceCIDR obs,
                       NodeStatistics = nodeStatistics,
                       Allocatable = Some allocatable, Capacity = Some capacity,
                       LastObservedTime = 0\<rparr>
                      (obs_now obs)))))"

text \<open>
  \<open>NewController\<close> leaves \<open>clusterStatus\<close> nil.
\<close>

definition NewController :: "string \<Rightarrow> string \<Rightarrow> bool \<Rightarrow> bool \<Rightarrow> Controller" where
  "NewController apiserverURL' parentAPIServerURL appPusher socketConnection =
     \<lparr>clusterStatus = None, apiserverURL = apiserverURL',
      appPusherEnabled = appPusher, useSocket = socketConnection,
      parentAPIServer = parentAPIServerURL\<rparr>"

subsection \<open>Runs of the controller\<close>

text \<open>
  The controller with its heap, and the addresses handed out to callers of
  \<open>GetClusterStatus\<close>. A caller reaches the object it was returned and what that object
  points to, nothing else of the heap.
\<close>

record 'n world =
  ctrl :: Controller
  heap :: "'n heap"
  handed :: "addr list"

text \<open>
  What happens to a running controller: a round of collection, a call of
  \<open>GetClusterStatus\<close>, and a write by a caller to an object it was handed (any object,
  at any handed address).
\<close>

datatype 'n event =
    CollectStatus observation
  | GetStatus
  | CallerWrite addr "'n object"

text \<open>
  One event. A call of \<open>GetClusterStatus\<close> hands the objects it allocated to the caller.
  A panic ends the run.
\<close>

fun step :: "'a::len word world \<Rightarrow> 'a word event \<Rightarrow> 'a word world option" where
  "step w (CollectStatus obs) =
     (case collectingClusterStatus (ctrl w) (heap w) obs of
        None \<Rightarrow> None
      | Some (c, h) \<Rightarrow> Some (w\<lparr>ctrl := c, heap := h\<rparr>))"
| "step w GetStatus =
     (case GetClusterStatus (ctrl w) (heap w) of
        (r, h) \<Rightarrow> Some (w\<lparr>heap := h, handed := handed w @ [length (heap w)..<length h]\<rparr>))"
| "step w (CallerWrite a ob) =
     Some (if a \<in> set (handed w) then w\<lparr>heap := (heap w)[a := ob]\<rparr> else w)"

fun run :: "'a::len word world \<Rightarrow> 'a word event list \<Rightarrow> 'a word world option" where
  "run w [] = Some w"
| "run w (ev # evs) = (case step w ev of None \<Rightarrow> None | Some w' \<Rightarrow> run w' evs)"

definition started :: "Controller \<Rightarrow> 'n world" where
  "started c = \<lparr>ctrl = c, heap = [], handed = []\<rparr>"

section \<open>Notions used by the properties\<close>

subsection \<open>Installation\<close>

text \<open>
  The group version handed to \<open>InstallREST\<close> in \<open>installAPIResources\<close>: the three
  statements before the call, in one term.
\<close>

definition publishedVersion ::
    "env \<Rightarrow> ShadowAPIServer \<Rightarrow> APIGroupInfo \<Rightarrow> GroupVersion \<Rightarrow> string \<Rightarrow> APIGroupVersion" where
  "publishedVersion e ss info groupVersion apiPrefix =
     (let v0 = getAPIGroupVersion e ss info groupVersion apiPrefix;
          v1 = (case OptionsExternalVersion info of
                  None \<Rightarrow> v0
                | Some ov \<Rightarrow> v0\<lparr>agv_OptionsExternalVersion := Some ov\<rparr>)
      in v1\<lparr>agv_MaxRequestBodyBytes := maxRequestBodyBytes ss\<rparr>)"

text \<open>
  The guard \<open>len(apiGroupInfo.VersionedResourcesStorageMap[groupVersion.Version]) == 0\<close>,
  negated.
\<close>

definition hasResources :: "APIGroupInfo \<Rightarrow> GroupVersion \<Rightarrow> bool" where
  "hasResources info gv \<longleftrightarrow> storageOf info (gv_Version gv) \<noteq> []"

text \<open>
  A descriptor that passes the first loop of \<open>installAPIGroups\<close>, and one that the loop
  rejects with an error: its first prioritized version has an empty group or version.
\<close>

definition wellFormed :: "APIGroupInfo \<Rightarrow> bool" where
  "wellFormed info =
     (case PrioritizedVersions info of
        [] \<Rightarrow> False
      | gv0 # _ \<Rightarrow> gv_Group gv0 \<noteq> [] \<and> gv_Version gv0 \<noteq> [])"




text \<open>
  The two guards of \<open>InstallShadowAPIGroups\<close>: the reserved suffix, and the shadow group's
  own name.
\<close>

definition excluded :: "env \<Rightarrow> APIGroupResources \<Rightarrow> bool" where
  "excluded e g \<longleftrightarrow>
     HasSuffix (ag_Name (agr_Group g)) clusternetGroupSuffix \<or>
     ag_Name (agr_Group g) = shadowapi_GroupName e"

text \<open>
  The adapter and the registered kind of a resource of a discovered group, and the
  entries and kinds of all groups that are not excluded, in the order the two loops
  reach them.
\<close>

definition adapterOf :: "APIGroupResources \<Rightarrow> APIResource \<Rightarrow> REST" where
  "adapterOf g r =
     resourceRest (ag_Name (agr_Group g)) (gvd_Version (ag_PreferredVersion (agr_Group g))) r"

definition kindOf :: "APIGroupResources \<Rightarrow> APIResource \<Rightarrow> GroupVersionKind" where
  "kindOf g r =
     WithKind \<lparr>gv_Group = ag_Name (agr_Group g),
               gv_Version = gvd_Version (ag_PreferredVersion (agr_Group g))\<rparr> (ar_Kind r)"

definition mirrored :: "env \<Rightarrow> APIGroupResources list \<Rightarrow> (string \<times> REST) list" where
  "mirrored e groups =
     concat (map (\<lambda>g. map (\<lambda>r. (ar_Name r, adapterOf g r)) (preferredResources g))
                 (filter (\<lambda>g. \<not> excluded e g) groups))"

definition mirroredKinds :: "env \<Rightarrow> APIGroupResources list \<Rightarrow> GroupVersionKind list" where
  "mirroredKinds e groups =
     concat (map (\<lambda>g. map (kindOf g) (preferredResources g))
                 (filter (\<lambda>g. \<not> excluded e g) groups))"

text \<open>
  Successive assignments \<open>storage[k] = v\<close>.
\<close>

fun storeAll :: "Storage \<Rightarrow> (string \<times> REST) list \<Rightarrow> Storage" where
  "storeAll storage [] = storage"
| "storeAll storage ((k, v) # kvs) = storeAll (AList.update k v storage) kvs"

text \<open>
  An entry under its lower-cased key.
\<close>

definition lowered :: "env \<Rightarrow> string \<times> REST \<Rightarrow> string \<times> REST" where
  "lowered e kv = (ToLower e (fst kv), snd kv)"

text \<open>
  The storages of the group versions published into a container, in order.
\<close>

fun publishedStorages :: "WebService list \<Rightarrow> Storage list" where
  "publishedStorages [] = []"
| "publishedStorages (VersionRoutes v # ws) = agv_Storage v # publishedStorages ws"
| "publishedStorages (GroupHandler g # ws) = publishedStorages ws"


text \<open>
  The map \<open>shadowv1alpha1storage\<close> after the loops of \<open>InstallShadowAPIGroups\<close>, and the
  storage \<open>getAPIGroupVersion\<close> builds from it.
\<close>

definition shadowStorage :: "env \<Rightarrow> APIGroupResources list \<Rightarrow> Storage" where
  "shadowStorage e groups = storeAll [] (mirrored e groups)"

definition publishedStorage :: "env \<Rightarrow> APIGroupResources list \<Rightarrow> Storage" where
  "publishedStorage e groups =
     storeAll [] (map (lowered e) (rangeOver e (shadowStorage e groups)))"

subsection \<open>Cluster status\<close>



text \<open>
  The value of a status behind a pointer: its fields with the two references replaced
  by the contents of the resource lists they point to.
\<close>

type_synonym 'n statusValue =
  "'n ManagedClusterStatus \<times> ResourceList option \<times> ResourceList option"

definition resourceListAt :: "'n heap \<Rightarrow> addr option \<Rightarrow> ResourceList option" where
  "resourceListAt h ao =
     (case ao of
        None \<Rightarrow> None
      | Some a \<Rightarrow> (case load h a of Some (ResourceListObject m) \<Rightarrow> Some m | _ \<Rightarrow> None))"

definition statusAt :: "'n heap \<Rightarrow> addr \<Rightarrow> 'n statusValue option" where
  "statusAt h p =
     (case load h p of
        Some (StatusObject s) \<Rightarrow>
          Some (s\<lparr>Allocatable := None, Capacity := None\<rparr>,
                resourceListAt h (Allocatable s), resourceListAt h (Capacity s))
      | _ \<Rightarrow> None)"

definition stored :: "'n world \<Rightarrow> 'n statusValue option" where
  "stored w = (case clusterStatus (ctrl w) of None \<Rightarrow> None | Some p \<Rightarrow> statusAt (heap w) p)"

text \<open>
  The value a completed round of collection stores.
\<close>

definition collected :: "Controller \<Rightarrow> observation \<Rightarrow> 'a::len word statusValue option" where
  "collected c obs =
     (case (getNodeStatistics (obs_nodes obs), obs_clusterVersion obs) of
        (Some nodeStatistics, Some (gitVersion, platform)) \<Rightarrow>
          Some (\<lparr>KubernetesVersion = gitVersion, Platform = platform,
                 APIServerURL = apiserverURL c,
                 Healthz = obs_healthz obs, Livez = obs_livez obs, Readyz = obs_readyz obs,
                 AppPusher = appPusherEnabled c, UseSocket = useSocket c,
                 ParentAPIServerURL = parentAPIServer c,
                 ClusterCIDR = obs_clusterCIDR obs, ServiceCIDR = obs_serviceCIDR obs,
                 NodeStatistics = nodeStatistics,
                 Allocatable = None, Capacity = None,
                 LastObservedTime = obs_now obs\<rparr>,
                Some (snd (nodeResourceLists (obs_nodes obs))),
                Some (fst (nodeResourceLists (obs_nodes obs))))
      | _ \<Rightarrow> None)"

text \<open>
  The value stored by the last round of collection among the events, if any.
\<close>

fun lastCollected :: "Controller \<Rightarrow> 'a::len word event list \<Rightarrow> 'a word statusValue option" where
  "lastCollected c [] = None"
| "lastCollected c (ev # evs) =
     (case lastCollected c evs of
        Some v \<Rightarrow> Some v
      | None \<Rightarrow> (case ev of CollectStatus obs \<Rightarrow> collected c obs | _ \<Rightarrow> None))"

fun isCollect :: "'n event \<Rightarrow> bool" where
  "isCollect (CollectStatus obs) = True"
| "isCollect _ = False"

text \<open>
  The invariant of a run: what the controller points to is allocated, of the right
  kind, and was never handed to a caller; handed addresses are allocated.
\<close>

definition listPointer :: "'n world \<Rightarrow> addr option \<Rightarrow> bool" where
  "listPointer w ao =
     (case ao of
        None \<Rightarrow> True
      | Some a \<Rightarrow> a < length (heap w) \<and> a \<notin> set (handed w) \<and>
                  (\<exists>m. heap w ! a = ResourceListObject m))"

definition sound :: "'n world \<Rightarrow> bool" where
  "sound w \<longleftrightarrow>
     (\<forall>a \<in> set (handed w). a < length (heap w)) \<and>
     (case clusterStatus (ctrl w) of
        None \<Rightarrow> True
      | Some p \<Rightarrow> p < length (heap w) \<and> p \<notin> set (handed w) \<and>
                  (\<exists>s. heap w ! p = StatusObject s \<and>
                       listPointer w (Allocatable s) \<and> listPointer w (Capacity s)))"

subsection \<open>Examples\<close>

text \<open>
  Concrete values for the examples. \<open>strings.ToLower\<close> on ASCII names.
\<close>

definition asciiLower :: "char \<Rightarrow> char" where
  "asciiLower c =
     (case map_of (zip ''ABCDEFGHIJKLMNOPQRSTUVWXYZ'' ''abcdefghijklmnopqrstuvwxyz'') c of
        Some l \<Rightarrow> l
      | None \<Rightarrow> c)"

text \<open>
  An environment in which every publication succeeds, both feature gates are off and a
  \<open>range\<close> visits a map in the order it was filled; one that visits in the opposite
  order; one with both gates on, in which \<open>InstallREST\<close> reports one resource; one in
  which \<open>InstallREST\<close> fails.
\<close>

definition hubEnv :: env where
  "hubEnv = \<lparr>shadowapi_GroupName = ''shadow'', shadowapi_Version = ''v1alpha1'',
             StorageVersionAPI = False, APIServerIdentity = False,
             InstallREST = (\<lambda>v. ([], None)),
             ToLower = map asciiLower,
             rangeOrder = (\<lambda>m. m)\<rparr>"


definition registeringEnv :: env where
  "registeringEnv =
     hubEnv\<lparr>StorageVersionAPI := True, APIServerIdentity := True,
            InstallREST := (\<lambda>v. ([\<lparr>ri_Group = gv_Group (agv_GroupVersion v),
                                      ri_Resource = ''deployments'',
                                      ri_EncodingVersion = gv_Version (agv_GroupVersion v)\<rparr>], None))\<rparr>"

definition failingEnv :: env where
  "failingEnv = hubEnv\<lparr>InstallREST := (\<lambda>v. ([], Some ''route conflict''))\<rparr>"

text \<open>
  A server that has nothing installed, discovered groups, and group descriptors: one
  with resources at \<open>v1\<close> and none at \<open>v2\<close>, one with an empty version string, one
  without prioritized versions.
\<close>

definition emptyServer :: ShadowAPIServer where
  "emptyServer = \<lparr>maxRequestBodyBytes = 0, minRequestTimeout = 0, Scheme = [],
                  GoRestfulContainer = [], DiscoveryGroupManager = [], StorageVersionManager = []\<rparr>"

definition exampleGroup :: "string \<Rightarrow> string \<Rightarrow> APIResource list \<Rightarrow> APIGroupResources" where
  "exampleGroup name version resources =
     \<lparr>agr_Group = \<lparr>ag_Name = name,
                    ag_Versions = [\<lparr>gvd_GroupVersion = name @ ''/'' @ version, gvd_Version = version\<rparr>],
                    ag_PreferredVersion = \<lparr>gvd_GroupVersion = name @ ''/'' @ version, gvd_Version = version\<rparr>\<rparr>,
      agr_VersionedResources = Map.empty(version \<mapsto> resources)\<rparr>"

definition exampleResource :: "string \<Rightarrow> string \<Rightarrow> APIResource" where
  "exampleResource name kind = \<lparr>ar_Name = name, ar_Namespaced = True, ar_Kind = kind, ar_ShortNames = []\<rparr>"

definition deployments :: APIResource where
  "deployments = exampleResource ''deployments'' ''Deployment''"

definition appsInfo :: APIGroupInfo where
  "appsInfo =
     \<lparr>PrioritizedVersions = [\<lparr>gv_Group = ''apps'', gv_Version = ''v1''\<rparr>,
                              \<lparr>gv_Group = ''apps'', gv_Version = ''v2''\<rparr>],
      VersionedResourcesStorageMap =
        Map.empty(''v1'' \<mapsto> [(''deployments'', resourceRest ''apps'' ''v1'' deployments)]),
      OptionsExternalVersion = None\<rparr>"


definition noVersionsInfo :: APIGroupInfo where
  "noVersionsInfo =
     \<lparr>PrioritizedVersions = [], VersionedResourcesStorageMap = Map.empty,
      OptionsExternalVersion = None\<rparr>"

text \<open>
  A round of collection on a cluster without nodes.
\<close>

definition quietObservation :: observation where
  "quietObservation =
     \<lparr>obs_clusterVersion = Some (''v1.21.0'', ''linux/amd64''), obs_nodes = [],
      obs_clusterCIDR = ''10.0.0.0/16'', obs_serviceCIDR = ''10.1.0.0/16'',
      obs_healthz = True, obs_livez = True, obs_readyz = True, obs_now = 1\<rparr>"

section \<open>Properties of the shadow API server\<close>

subsection \<open>The loop of installAPIResources\<close>

lemma publishedVersion_container [simp]:
  "publishedVersion e (ss\<lparr>GoRestfulContainer := c\<rparr>) info gv p = publishedVersion e ss info gv p"
  by (simp add: publishedVersion_def getAPIGroupVersion_def newAPIGroupVersion_def)

lemma publishedVersion_Storage:
  "agv_Storage (publishedVersion e ss info gv p) =
     lowerKeys e (rangeOver e (storageOf info (gv_Version gv))) []"
  by (simp add: publishedVersion_def getAPIGroupVersion_def Let_def split: option.splits)

lemma installVersions_Cons:
  "installVersions e ss p info (gv # gvs) ris =
     (if \<not> hasResources info gv then installVersions e ss p info gvs ris
      else case InstallREST e (publishedVersion e ss info gv p) of
             (r, Some err) \<Rightarrow>
               (ss\<lparr>GoRestfulContainer := GoRestfulContainer ss @ [VersionRoutes (publishedVersion e ss info gv p)]\<rparr>,
                Inl (UnableToSetupAPI info err))
           | (r, None) \<Rightarrow>
               installVersions e
                 (ss\<lparr>GoRestfulContainer := GoRestfulContainer ss @ [VersionRoutes (publishedVersion e ss info gv p)]\<rparr>)
                 p info gvs (ris @ r))"
  by (simp add: publishedVersion_def hasResources_def Let_def split: prod.splits option.splits)

lemma installVersions_frame:
  "installVersions e ss p info gvs ris = (ss', r) \<Longrightarrow>
     Scheme ss' = Scheme ss \<and> DiscoveryGroupManager ss' = DiscoveryGroupManager ss \<and>
     StorageVersionManager ss' = StorageVersionManager ss \<and>
     maxRequestBodyBytes ss' = maxRequestBodyBytes ss \<and> minRequestTimeout ss' = minRequestTimeout ss"
proof (induction gvs arbitrary: ss ris)
  case Nil
  then show ?case by simp
next
  case (Cons gv gvs)
  show ?case
  proof (cases "hasResources info gv")
    case False
    with Cons show ?thesis by (simp add: installVersions_Cons del: installVersions.simps)
  next
    case True
    obtain rr er where ir: "InstallREST e (publishedVersion e ss info gv p) = (rr, er)"
      by (cases "InstallREST e (publishedVersion e ss info gv p)")
    show ?thesis
    proof (cases er)
      case None
      with Cons.prems True ir
      have "installVersions e
              (ss\<lparr>GoRestfulContainer := GoRestfulContainer ss @ [VersionRoutes (publishedVersion e ss info gv p)]\<rparr>)
              p info gvs (ris @ rr) = (ss', r)"
        by (simp add: installVersions_Cons del: installVersions.simps)
      from Cons.IH [OF this] show ?thesis by simp
    next
      case (Some err)
      with Cons.prems True ir show ?thesis
        by (auto simp add: installVersions_Cons simp del: installVersions.simps)
    qed
  qed
qed

text \<open>What a run of the loop adds to the container, and what it returns.\<close>

lemma installVersions_container:
  "installVersions e ss p info gvs ris = (ss', r) \<Longrightarrow>
     \<exists>n. GoRestfulContainer ss' =
           GoRestfulContainer ss @
             map (\<lambda>gv. VersionRoutes (publishedVersion e ss info gv p))
               (take n (filter (hasResources info) gvs))"
proof (induction gvs arbitrary: ss ris)
  case Nil
  then show ?case by simp
next
  case (Cons gv gvs)
  show ?case
  proof (cases "hasResources info gv")
    case False
    with Cons show ?thesis by (simp add: installVersions_Cons del: installVersions.simps)
  next
    case True
    let ?ss1 = "ss\<lparr>GoRestfulContainer := GoRestfulContainer ss @ [VersionRoutes (publishedVersion e ss info gv p)]\<rparr>"
    obtain rr er where ir: "InstallREST e (publishedVersion e ss info gv p) = (rr, er)"
      by (cases "InstallREST e (publishedVersion e ss info gv p)")
    show ?thesis
    proof (cases er)
      case None
      with Cons.prems True ir
      have "installVersions e ?ss1 p info gvs (ris @ rr) = (ss', r)"
        by (simp add: installVersions_Cons del: installVersions.simps)
      from Cons.IH [OF this] obtain n where
        "GoRestfulContainer ss' = GoRestfulContainer ?ss1 @
           map (\<lambda>gv. VersionRoutes (publishedVersion e ss info gv p)) (take n (filter (hasResources info) gvs))"
        by auto
      then have "GoRestfulContainer ss' = GoRestfulContainer ss @
           map (\<lambda>gv. VersionRoutes (publishedVersion e ss info gv p)) (take (Suc n) (filter (hasResources info) (gv # gvs)))"
        using True by simp
      then show ?thesis by blast
    next
      case (Some err)
      with Cons.prems True ir have "ss' = ?ss1"
        by (auto simp add: installVersions_Cons simp del: installVersions.simps)
      then have "GoRestfulContainer ss' = GoRestfulContainer ss @
           map (\<lambda>gv. VersionRoutes (publishedVersion e ss info gv p)) (take (Suc 0) (filter (hasResources info) (gv # gvs)))"
        using True by simp
      then show ?thesis by blast
    qed
  qed
qed

lemma installVersions_Inr:
  "installVersions e ss p info gvs ris = (ss', Inr infos) \<Longrightarrow>
     GoRestfulContainer ss' =
       GoRestfulContainer ss @
         map (\<lambda>gv. VersionRoutes (publishedVersion e ss info gv p)) (filter (hasResources info) gvs) \<and>
     infos = ris @ concat (map (\<lambda>gv. fst (InstallREST e (publishedVersion e ss info gv p)))
                               (filter (hasResources info) gvs)) \<and>
     (\<forall>gv \<in> set (filter (hasResources info) gvs). snd (InstallREST e (publishedVersion e ss info gv p)) = None)"
proof (induction gvs arbitrary: ss ris)
  case Nil
  then show ?case by simp
next
  case (Cons gv gvs)
  show ?case
  proof (cases "hasResources info gv")
    case False
    with Cons show ?thesis by (simp add: installVersions_Cons del: installVersions.simps)
  next
    case True
    let ?ss1 = "ss\<lparr>GoRestfulContainer := GoRestfulContainer ss @ [VersionRoutes (publishedVersion e ss info gv p)]\<rparr>"
    obtain rr er where ir: "InstallREST e (publishedVersion e ss info gv p) = (rr, er)"
      by (cases "InstallREST e (publishedVersion e ss info gv p)")
    show ?thesis
    proof (cases er)
      case None
      with Cons.prems True ir
      have "installVersions e ?ss1 p info gvs (ris @ rr) = (ss', Inr infos)"
        by (simp add: installVersions_Cons del: installVersions.simps)
      from Cons.IH [OF this] True ir None show ?thesis by simp
    next
      case (Some err)
      with Cons.prems True ir show ?thesis
        by (auto simp add: installVersions_Cons simp del: installVersions.simps)
    qed
  qed
qed

lemma installVersions_succeeds:
  "\<forall>gv \<in> set (filter (hasResources info) gvs). snd (InstallREST e (publishedVersion e ss info gv p)) = None \<Longrightarrow>
     \<exists>ss' infos. installVersions e ss p info gvs ris = (ss', Inr infos)"
proof (induction gvs arbitrary: ss ris)
  case Nil
  then show ?case by simp
next
  case (Cons gv gvs)
  show ?case
  proof (cases "hasResources info gv")
    case False
    with Cons show ?thesis by (simp add: installVersions_Cons del: installVersions.simps)
  next
    case True
    let ?ss1 = "ss\<lparr>GoRestfulContainer := GoRestfulContainer ss @ [VersionRoutes (publishedVersion e ss info gv p)]\<rparr>"
    obtain rr where ir: "InstallREST e (publishedVersion e ss info gv p) = (rr, None)"
      using Cons.prems True by (cases "InstallREST e (publishedVersion e ss info gv p)") auto
    have "\<forall>gv \<in> set (filter (hasResources info) gvs). snd (InstallREST e (publishedVersion e ?ss1 info gv p)) = None"
      using Cons.prems by simp
    from Cons.IH [OF this, of "ris @ rr"] True ir show ?thesis
      by (simp add: installVersions_Cons del: installVersions.simps)
  qed
qed

lemma installAPIResources_frame:
  assumes "installAPIResources e ss p info = (ss', out)"
  shows "Scheme ss' = Scheme ss \<and> DiscoveryGroupManager ss' = DiscoveryGroupManager ss \<and>
         maxRequestBodyBytes ss' = maxRequestBodyBytes ss \<and> minRequestTimeout ss' = minRequestTimeout ss"
proof -
  obtain ss1 r where iv: "installVersions e ss p info (PrioritizedVersions info) [] = (ss1, r)"
    by (cases "installVersions e ss p info (PrioritizedVersions info) []")
  from installVersions_frame [OF iv] assms iv show ?thesis
    by (auto simp: installAPIResources_def split: sum.splits if_splits)
qed

lemma installAPIResources_container:
  assumes "installAPIResources e ss p info = (ss', out)"
  shows "\<exists>n. GoRestfulContainer ss' =
           GoRestfulContainer ss @
             map (\<lambda>gv. VersionRoutes (publishedVersion e ss info gv p))
               (take n (filter (hasResources info) (PrioritizedVersions info)))"
proof -
  obtain ss1 r where iv: "installVersions e ss p info (PrioritizedVersions info) [] = (ss1, r)"
    by (cases "installVersions e ss p info (PrioritizedVersions info) []")
  have "GoRestfulContainer ss' = GoRestfulContainer ss1"
    using assms iv by (auto simp: installAPIResources_def split: sum.splits if_splits)
  with installVersions_container [OF iv] show ?thesis by simp
qed

subsection \<open>Validation\<close>

lemma validateGroups_ReturnNil: "validateGroups infos = ReturnNil \<longleftrightarrow> (\<forall>info \<in> set infos. wellFormed info)"
  by (induction infos) (auto simp: wellFormed_def split: list.splits)


lemma validateGroups_append:
  "validateGroups pre = ReturnNil \<Longrightarrow> validateGroups (pre @ infos) = validateGroups infos"
  by (induction pre) (auto split: list.splits if_splits)


lemma installAPIGroups_rejected:
  "validateGroups infos \<noteq> ReturnNil \<Longrightarrow> installAPIGroups e ss infos = (ss, validateGroups infos)"
  by (cases "validateGroups infos") (simp_all add: installAPIGroups_def)

lemma installAPIGroups_accepted:
  "validateGroups infos = ReturnNil \<Longrightarrow> installAPIGroups e ss infos = installGroups e ss infos"
  by (simp add: installAPIGroups_def)





text \<open>
  Claim C4 (empty prioritized versions), as the code has it. A descriptor without prioritized
  versions that the first loop reaches (every descriptor before it is well-formed) makes
  \<open>installAPIGroups\<close> panic on \<open>PrioritizedVersions[0]\<close>; the server is left as it was.
\<close>

theorem installAPIGroups_empty_versions_panics:
  assumes "PrioritizedVersions info = []" and "\<forall>i \<in> set pre. wellFormed i"
  shows "installAPIGroups e ss (pre @ info # post) = (ss, Panic)"
proof -
  have "validateGroups pre = ReturnNil" using assms(2) by (simp add: validateGroups_ReturnNil)
  then have "validateGroups (pre @ info # post) = Panic"
    using assms(1) by (simp add: validateGroups_append)
  then show ?thesis using installAPIGroups_rejected [of "pre @ info # post" e ss] by simp
qed

text \<open>
  C4 at a batch of a well-formed descriptor followed by one without prioritized versions.
\<close>

theorem installAPIGroups_empty_versions_panics_witness:
  "PrioritizedVersions noVersionsInfo = [] \<and> wellFormed appsInfo \<and>
   installAPIGroups hubEnv emptyServer [appsInfo, noVersionsInfo] = (emptyServer, Panic)"
proof -
  have a: "PrioritizedVersions noVersionsInfo = []" by (simp add: noVersionsInfo_def)
  have w: "wellFormed appsInfo" by (simp add: wellFormed_def appsInfo_def)
  then have "\<forall>i \<in> set [appsInfo]. wellFormed i" by simp
  from installAPIGroups_empty_versions_panics [OF a this, of hubEnv emptyServer "[]"] a w
  show ?thesis by simp
qed

text \<open>
  C4 as stated fails: for a descriptor without prioritized versions the call does not
  return an error, it panics.
\<close>

theorem installAPIGroups_empty_versions_counterexample:
  "PrioritizedVersions noVersionsInfo = [] \<and>
   installAPIGroups hubEnv emptyServer [noVersionsInfo] = (emptyServer, Panic)"
  by (simp add: installAPIGroups_def noVersionsInfo_def)

subsection \<open>Discovery entries\<close>





subsection \<open>Storage versions\<close>

text \<open>
  Claim C7 (storage versions), as the code has it. When \<open>InstallREST\<close> succeeds for every
  prioritized version with resources, \<open>installAPIResources\<close> returns nil and has
  registered the resource infos of these publications if both feature gates are on, and
  nothing if one is off. When an \<open>InstallREST\<close> fails, it returns an error and has
  registered nothing, whatever the gates.
\<close>

theorem installAPIResources_storage_versions:
  assumes "installAPIResources e ss p info = (ss', out)"
  shows "if \<forall>gv \<in> set (filter (hasResources info) (PrioritizedVersions info)).
              snd (InstallREST e (publishedVersion e ss info gv p)) = None
         then out = ReturnNil \<and>
              StorageVersionManager ss' =
                StorageVersionManager ss @
                  (if StorageVersionAPI e \<and> APIServerIdentity e
                   then concat (map (\<lambda>gv. fst (InstallREST e (publishedVersion e ss info gv p)))
                                 (filter (hasResources info) (PrioritizedVersions info)))
                   else [])
         else (\<exists>err. out = ReturnErr err) \<and> StorageVersionManager ss' = StorageVersionManager ss"
proof -
  obtain ss1 r where iv: "installVersions e ss p info (PrioritizedVersions info) [] = (ss1, r)"
    by (cases "installVersions e ss p info (PrioritizedVersions info) []")
  note fr = installVersions_frame [OF iv]
  show ?thesis
  proof (cases r)
    case (Inl err)
    have "\<not> (\<forall>gv \<in> set (filter (hasResources info) (PrioritizedVersions info)).
              snd (InstallREST e (publishedVersion e ss info gv p)) = None)"
    proof
      assume "\<forall>gv \<in> set (filter (hasResources info) (PrioritizedVersions info)).
              snd (InstallREST e (publishedVersion e ss info gv p)) = None"
      from installVersions_succeeds [OF this, of "[]"] iv Inl show False by simp
    qed
    moreover have "out = ReturnErr err" "ss' = ss1"
      using assms iv Inl by (auto simp: installAPIResources_def)
    ultimately show ?thesis using fr by simp
  next
    case (Inr infos)
    from installVersions_Inr [OF iv [unfolded Inr]]
    have all: "\<forall>gv \<in> set (filter (hasResources info) (PrioritizedVersions info)).
              snd (InstallREST e (publishedVersion e ss info gv p)) = None"
      and infos: "infos = concat (map (\<lambda>gv. fst (InstallREST e (publishedVersion e ss info gv p)))
                                 (filter (hasResources info) (PrioritizedVersions info)))"
      by auto
    show ?thesis using assms iv Inr all infos fr
      by (auto simp: installAPIResources_def split: if_splits)
  qed
qed

text \<open>
  C7 with both gates on: the resource info of the one publication is registered.
\<close>

theorem installAPIResources_storage_versions_witness:
  "snd (installAPIResources registeringEnv emptyServer APIGroupPrefix appsInfo) = ReturnNil \<and>
   StorageVersionManager (fst (installAPIResources registeringEnv emptyServer APIGroupPrefix appsInfo))
     = [\<lparr>ri_Group = ''apps'', ri_Resource = ''deployments'', ri_EncodingVersion = ''v1''\<rparr>]"
proof -
  let ?run = "installAPIResources registeringEnv emptyServer APIGroupPrefix appsInfo"
  have r: "?run = (fst ?run, snd ?run)" by simp
  from installAPIResources_storage_versions [OF r] show ?thesis
    by (simp add: InstallShadowAPIGroups_def installAPIGroups_def installAPIResources_def
          getAPIGroupVersion_def newAPIGroupVersion_def shadowAPIGroupInfo_def storageOf_def
          rangeOver_def preferredResources_def resourceRest_def SetVersion_def SetGroup_def
          SetKind_def SetShortNames_def SetName_def SetNamespaceScoped_def NewREST_def
          WithKind_def HasSuffix_def clusternetGroupSuffix_def APIGroupPrefix_def
          GroupVersion_String_def Let_def hasResources_def publishedVersion_def
          registeringEnv_def hubEnv_def
          emptyServer_def appsInfo_def deployments_def exampleResource_def)
qed

text \<open>
  C7 as stated fails when a publication fails: with a gate off, the function does not
  return without error.
\<close>

theorem installAPIResources_storage_versions_counterexample:
  "\<not> (StorageVersionAPI failingEnv \<and> APIServerIdentity failingEnv) \<and>
   snd (installAPIResources failingEnv emptyServer APIGroupPrefix appsInfo)
     = ReturnErr (UnableToSetupAPI appsInfo ''route conflict'')"
  by (simp add: InstallShadowAPIGroups_def installAPIGroups_def installAPIResources_def
        getAPIGroupVersion_def newAPIGroupVersion_def shadowAPIGroupInfo_def storageOf_def
        rangeOver_def preferredResources_def resourceRest_def SetVersion_def SetGroup_def
        SetKind_def SetShortNames_def SetName_def SetNamespaceScoped_def NewREST_def
        WithKind_def HasSuffix_def clusternetGroupSuffix_def APIGroupPrefix_def
        GroupVersion_String_def Let_def failingEnv_def hubEnv_def emptyServer_def appsInfo_def)

subsection \<open>Discovery failure\<close>



subsection \<open>Storage maps\<close>

lemma storeAll_append: "storeAll st (xs @ ys) = storeAll (storeAll st xs) ys"
  by (induction xs arbitrary: st) auto




lemma set_update_subset: "set (AList.update k v al) \<subseteq> insert (k, v) (set al)"
  by (induction al) auto

lemma set_storeAll_subset: "set (storeAll st kvs) \<subseteq> set st \<union> set kvs"
proof (induction kvs arbitrary: st)
  case Nil
  then show ?case by simp
next
  case (Cons kv kvs)
  obtain k v where kv: "kv = (k, v)" by (cases kv)
  have "set (storeAll st (kv # kvs)) \<subseteq> set (AList.update k v st) \<union> set kvs"
    using Cons.IH by (simp add: kv)
  also have "\<dots> \<subseteq> insert (k, v) (set st) \<union> set kvs"
    using set_update_subset [of k v st] by blast
  finally show ?case by (auto simp: kv)
qed

lemma lowerKeys_storeAll: "lowerKeys e kvs st = storeAll st (map (lowered e) kvs)"
  by (induction kvs arbitrary: st) (auto simp: lowered_def)




lemma mset_rangeOver: "mset (rangeOver e m) = mset m"
  by (simp add: rangeOver_def)

lemma set_rangeOver: "set (rangeOver e m) = set m"
  using mset_rangeOver [of e m] by (metis set_mset_mset)

subsection \<open>What InstallShadowAPIGroups mirrors and publishes\<close>

lemma mirrorResources_eq:
  "mirrorResources g pv rs (sch, st) =
     (sch @ map (\<lambda>r. WithKind \<lparr>gv_Group = g, gv_Version = pv\<rparr> (ar_Kind r)) rs,
      storeAll st (map (\<lambda>r. (ar_Name r, resourceRest g pv r)) rs))"
  by (induction rs arbitrary: sch st) auto

lemma mirrorGroups_eq:
  "mirrorGroups e groups (sch, st) = (sch @ mirroredKinds e groups, storeAll st (mirrored e groups))"
proof (induction groups arbitrary: sch st)
  case Nil
  then show ?case by (simp add: mirroredKinds_def mirrored_def)
next
  case (Cons g groups)
  show ?case
  proof (cases "excluded e g")
    case True
    then show ?thesis using Cons.IH
      by (auto simp: excluded_def mirroredKinds_def mirrored_def)
  next
    case False
    then show ?thesis using Cons.IH
      by (simp add: excluded_def mirroredKinds_def mirrored_def mirrorResources_eq
            storeAll_append kindOf_def adapterOf_def)
  qed
qed

lemma InstallShadowAPIGroups_eq:
  "InstallShadowAPIGroups e ss (groups, None) =
     installAPIGroups e (ss\<lparr>Scheme := Scheme ss @ mirroredKinds e groups\<rparr>)
       [shadowAPIGroupInfo e (storeAll [] (mirrored e groups))]"
  by (simp add: InstallShadowAPIGroups_def mirrorGroups_eq)

lemma publishedStorages_append [simp]:
  "publishedStorages (xs @ ys) = publishedStorages xs @ publishedStorages ys"
  by (induction xs rule: publishedStorages.induct) auto

lemma publishedStorages_routes:
  "publishedStorages (map (\<lambda>gv. VersionRoutes (f gv)) gvs) = map (\<lambda>gv. agv_Storage (f gv)) gvs"
  by (induction gvs) auto

text \<open>Every storage published by the second loop is the lower-keyed storage of a version with resources.\<close>

lemma installGroups_published:
  "installGroups e ss infos = (ss', out) \<Longrightarrow>
     \<exists>added. publishedStorages (GoRestfulContainer ss') = publishedStorages (GoRestfulContainer ss) @ added \<and>
       Scheme ss' = Scheme ss \<and>
       (\<forall>st \<in> set added. \<exists>info \<in> set infos. \<exists>gv \<in> set (PrioritizedVersions info).
           hasResources info gv \<and>
           st = lowerKeys e (rangeOver e (storageOf info (gv_Version gv))) [])"
proof (induction infos arbitrary: ss)
  case Nil
  then show ?case by simp
next
  case (Cons info infos)
  obtain ss1 o1 where ir: "installAPIResources e ss APIGroupPrefix info = (ss1, o1)"
    by (cases "installAPIResources e ss APIGroupPrefix info")
  note fr = installAPIResources_frame [OF ir]
  from installAPIResources_container [OF ir] obtain n where
    c1: "GoRestfulContainer ss1 = GoRestfulContainer ss @
           map (\<lambda>gv. VersionRoutes (publishedVersion e ss info gv APIGroupPrefix))
               (take n (filter (hasResources info) (PrioritizedVersions info)))"
    by blast
  define a1 where "a1 = map (\<lambda>gv. lowerKeys e (rangeOver e (storageOf info (gv_Version gv))) [])
                          (take n (filter (hasResources info) (PrioritizedVersions info)))"
  have p1: "publishedStorages (GoRestfulContainer ss1) = publishedStorages (GoRestfulContainer ss) @ a1"
    by (simp add: c1 a1_def publishedStorages_routes publishedVersion_Storage)
  have a1: "\<forall>st \<in> set a1. \<exists>gv \<in> set (PrioritizedVersions info).
           hasResources info gv \<and> st = lowerKeys e (rangeOver e (storageOf info (gv_Version gv))) []"
  proof
    fix st assume "st \<in> set a1"
    then obtain gv where "gv \<in> set (take n (filter (hasResources info) (PrioritizedVersions info)))"
      "st = lowerKeys e (rangeOver e (storageOf info (gv_Version gv))) []"
      by (auto simp: a1_def)
    moreover from this(1) have "gv \<in> set (filter (hasResources info) (PrioritizedVersions info))"
      by (rule in_set_takeD)
    ultimately show "\<exists>gv \<in> set (PrioritizedVersions info).
           hasResources info gv \<and> st = lowerKeys e (rangeOver e (storageOf info (gv_Version gv))) []"
      by auto
  qed
  show ?case
  proof (cases "o1 = ReturnNil \<and> PrioritizedVersions info \<noteq> []")
    case False
    with Cons.prems ir have "ss' = ss1"
      by (cases o1; cases "PrioritizedVersions info") auto
    with p1 a1 fr show ?thesis by (intro exI [of _ a1]) auto
  next
    case True
    then obtain gv0 rest where pv: "PrioritizedVersions info = gv0 # rest"
      by (cases "PrioritizedVersions info") auto
    define apiGroup where "apiGroup =
      \<lparr>ag_Name = gv_Group gv0,
       ag_Versions = versionsForDiscovery info (PrioritizedVersions info),
       ag_PreferredVersion = \<lparr>gvd_GroupVersion = GroupVersion_String gv0, gvd_Version = gv_Version gv0\<rparr>\<rparr>"
    define ss3 where "ss3 = ss1\<lparr>DiscoveryGroupManager := DiscoveryGroupManager ss1 @ [apiGroup],
                               GoRestfulContainer := GoRestfulContainer ss1 @ [GroupHandler apiGroup]\<rparr>"
    have rec: "installGroups e ss3 infos = (ss', out)"
      using Cons.prems ir True pv by (simp add: Let_def ss3_def apiGroup_def)
    have p3: "publishedStorages (GoRestfulContainer ss3) = publishedStorages (GoRestfulContainer ss) @ a1"
      using p1 by (simp add: ss3_def)
    have s3: "Scheme ss3 = Scheme ss" using fr by (simp add: ss3_def)
    from Cons.IH [OF rec] obtain a2 where a2:
      "publishedStorages (GoRestfulContainer ss') = publishedStorages (GoRestfulContainer ss3) @ a2"
      "Scheme ss' = Scheme ss3"
      "\<forall>st \<in> set a2. \<exists>info \<in> set infos. \<exists>gv \<in> set (PrioritizedVersions info).
           hasResources info gv \<and> st = lowerKeys e (rangeOver e (storageOf info (gv_Version gv))) []"
      by blast
    show ?thesis
      using a1 a2 p3 s3 by (intro exI [of _ "a1 @ a2"]) auto
  qed
qed

lemma installAPIGroups_published:
  assumes "installAPIGroups e ss infos = (ss', out)"
  shows "\<exists>added. publishedStorages (GoRestfulContainer ss') = publishedStorages (GoRestfulContainer ss) @ added \<and>
       Scheme ss' = Scheme ss \<and>
       (\<forall>st \<in> set added. \<exists>info \<in> set infos. \<exists>gv \<in> set (PrioritizedVersions info).
           hasResources info gv \<and>
           st = lowerKeys e (rangeOver e (storageOf info (gv_Version gv))) [])"
proof (cases "validateGroups infos = ReturnNil")
  case True
  with assms have "installGroups e ss infos = (ss', out)" by (simp add: installAPIGroups_accepted)
  from installGroups_published [OF this] show ?thesis .
next
  case False
  with assms have "ss' = ss" by (auto simp: installAPIGroups_rejected)
  then show ?thesis by (intro exI [of _ "[]"]) simp
qed

text \<open>The storages published by the shadow installation: the lower-keyed shadow storage.\<close>

lemma InstallShadowAPIGroups_published:
  assumes "InstallShadowAPIGroups e ss (groups, None) = (ss', out)"
  shows "Scheme ss' = Scheme ss @ mirroredKinds e groups \<and>
         (\<exists>added. publishedStorages (GoRestfulContainer ss') =
                    publishedStorages (GoRestfulContainer ss) @ added \<and>
            (\<forall>st \<in> set added.
               st = storeAll [] (map (lowered e) (rangeOver e (storeAll [] (mirrored e groups))))))"
proof -
  let ?S = "storeAll [] (mirrored e groups)"
  let ?info = "shadowAPIGroupInfo e ?S"
  from assms have "installAPIGroups e (ss\<lparr>Scheme := Scheme ss @ mirroredKinds e groups\<rparr>) [?info] = (ss', out)"
    by (simp add: InstallShadowAPIGroups_eq)
  from installAPIGroups_published [OF this] obtain added where ad:
    "publishedStorages (GoRestfulContainer ss') = publishedStorages (GoRestfulContainer ss) @ added"
    "Scheme ss' = Scheme ss @ mirroredKinds e groups"
    "\<forall>st \<in> set added. \<exists>gv \<in> set (PrioritizedVersions ?info).
           hasResources ?info gv \<and> st = lowerKeys e (rangeOver e (storageOf ?info (gv_Version gv))) []"
    by auto
  have "\<forall>st \<in> set added. st = storeAll [] (map (lowered e) (rangeOver e ?S))"
  proof
    fix st assume "st \<in> set added"
    with ad(3) obtain gv where gv: "gv \<in> set (PrioritizedVersions ?info)" "hasResources ?info gv"
      "st = lowerKeys e (rangeOver e (storageOf ?info (gv_Version gv))) []"
      by blast
    from gv(2) have "storageOf ?info (gv_Version gv) = ?S"
      by (auto simp: hasResources_def storageOf_def shadowAPIGroupInfo_def split: if_splits)
    with gv(3) show "st = storeAll [] (map (lowered e) (rangeOver e ?S))"
      by (simp add: lowerKeys_storeAll)
  qed
  with ad show ?thesis by blast
qed

lemma mirrored_iff:
  "(k, a) \<in> set (mirrored e groups) \<longleftrightarrow>
     (\<exists>g \<in> set groups. \<not> excluded e g \<and> (\<exists>r \<in> set (preferredResources g). k = ar_Name r \<and> a = adapterOf g r))"
  by (auto simp: mirrored_def)

lemma mirroredKinds_iff:
  "k \<in> set (mirroredKinds e groups) \<longleftrightarrow>
     (\<exists>g \<in> set groups. \<not> excluded e g \<and> (\<exists>r \<in> set (preferredResources g). k = kindOf g r))"
  by (auto simp: mirroredKinds_def)

lemma rest_group_adapterOf [simp]: "rest_group (adapterOf g r) = ag_Name (agr_Group g)"
  by (simp add: adapterOf_def resourceRest_def SetVersion_def SetGroup_def SetKind_def
        SetShortNames_def SetName_def SetNamespaceScoped_def NewREST_def)

lemma gvk_Group_kindOf [simp]: "gvk_Group (kindOf g r) = ag_Name (agr_Group g)"
  by (simp add: kindOf_def WithKind_def)

lemma excluded_same_name:
  "excluded e g \<Longrightarrow> ag_Name (agr_Group g') = ag_Name (agr_Group g) \<Longrightarrow> excluded e g'"
  by (simp add: excluded_def)

lemma shadowStorage_mirrorGroups: "shadowStorage e groups = snd (mirrorGroups e groups (sch, []))"
  by (simp add: shadowStorage_def mirrorGroups_eq)

lemma set_shadowStorage: "set (shadowStorage e groups) \<subseteq> set (mirrored e groups)"
  using set_storeAll_subset [of "[]" "mirrored e groups"] by (simp add: shadowStorage_def)


lemma set_publishedStorage:
  "set (publishedStorage e groups) \<subseteq> lowered e ` set (mirrored e groups)"
proof -
  have "set (publishedStorage e groups) \<subseteq> lowered e ` set (rangeOver e (shadowStorage e groups))"
    using set_storeAll_subset [of "[]" "map (lowered e) (rangeOver e (shadowStorage e groups))"]
    by (simp add: publishedStorage_def)
  also have "\<dots> \<subseteq> lowered e ` set (mirrored e groups)"
    using set_shadowStorage [of e groups] by (auto simp: set_rangeOver)
  finally show ?thesis .
qed




lemma InstallShadowAPIGroups_storages:
  assumes "InstallShadowAPIGroups e ss (groups, None) = (ss', out)"
    and "st \<in> set (drop (length (publishedStorages (GoRestfulContainer ss)))
                        (publishedStorages (GoRestfulContainer ss')))"
  shows "st = publishedStorage e groups"
proof -
  from InstallShadowAPIGroups_published [OF assms(1)] obtain added where
    "publishedStorages (GoRestfulContainer ss') = publishedStorages (GoRestfulContainer ss) @ added"
    "\<forall>st \<in> set added. st = publishedStorage e groups"
    by (auto simp: publishedStorage_def shadowStorage_def)
  with assms(2) show ?thesis by simp
qed

lemma InstallShadowAPIGroups_kinds:
  assumes "InstallShadowAPIGroups e ss (groups, None) = (ss', out)"
  shows "drop (length (Scheme ss)) (Scheme ss') = mirroredKinds e groups"
  using InstallShadowAPIGroups_published [OF assms] by simp





subsection \<open>Exclusion, completeness and collisions\<close>

text \<open>
  Claim C1 (exclusion). For a discovered group whose name ends with \<open>.clusternet.io\<close> or equals
  the shadow group's name, \<open>InstallShadowAPIGroups\<close> registers no kind of that group with
  the scheme, puts no adapter of that group into the shadow storage map, and publishes
  no adapter of that group.
\<close>

theorem InstallShadowAPIGroups_exclusion:
  assumes run: "InstallShadowAPIGroups e ss (groups, None) = (ss', out)"
    and g: "g \<in> set groups"
    and ex: "HasSuffix (ag_Name (agr_Group g)) clusternetGroupSuffix \<or>
             ag_Name (agr_Group g) = shadowapi_GroupName e"
  shows "(\<forall>k \<in> set (drop (length (Scheme ss)) (Scheme ss')). gvk_Group k \<noteq> ag_Name (agr_Group g)) \<and>
         (\<forall>a \<in> snd ` set (snd (mirrorGroups e groups (Scheme ss, []))).
             rest_group a \<noteq> ag_Name (agr_Group g)) \<and>
         (\<forall>st \<in> set (drop (length (publishedStorages (GoRestfulContainer ss)))
                          (publishedStorages (GoRestfulContainer ss'))).
             \<forall>a \<in> snd ` set st. rest_group a \<noteq> ag_Name (agr_Group g))"
proof -
  from ex have exg: "excluded e g" by (simp add: excluded_def)
  have kinds: "gvk_Group k \<noteq> ag_Name (agr_Group g)" if "k \<in> set (mirroredKinds e groups)" for k
  proof -
    from that obtain g' r' where "\<not> excluded e g'" "k = kindOf g' r'"
      unfolding mirroredKinds_iff by blast
    with exg excluded_same_name [of e g g'] show ?thesis by auto
  qed
  have entries: "rest_group a \<noteq> ag_Name (agr_Group g)" if "(n, a) \<in> set (mirrored e groups)" for n a
  proof -
    from that obtain g' r' where "\<not> excluded e g'" "a = adapterOf g' r'"
      unfolding mirrored_iff by blast
    with exg excluded_same_name [of e g g'] show ?thesis by auto
  qed
  have 1: "\<forall>k \<in> set (drop (length (Scheme ss)) (Scheme ss')). gvk_Group k \<noteq> ag_Name (agr_Group g)"
    using kinds by (simp add: InstallShadowAPIGroups_kinds [OF run])
  have 2: "\<forall>a \<in> snd ` set (snd (mirrorGroups e groups (Scheme ss, []))).
             rest_group a \<noteq> ag_Name (agr_Group g)"
  proof
    fix a assume "a \<in> snd ` set (snd (mirrorGroups e groups (Scheme ss, [])))"
    then obtain n where "(n, a) \<in> set (shadowStorage e groups)"
      by (auto simp: shadowStorage_mirrorGroups [symmetric])
    with set_shadowStorage [of e groups] have "(n, a) \<in> set (mirrored e groups)" by blast
    then show "rest_group a \<noteq> ag_Name (agr_Group g)" by (rule entries)
  qed
  have 3: "\<forall>st \<in> set (drop (length (publishedStorages (GoRestfulContainer ss)))
                          (publishedStorages (GoRestfulContainer ss'))).
             \<forall>a \<in> snd ` set st. rest_group a \<noteq> ag_Name (agr_Group g)"
  proof (intro ballI)
    fix st a
    assume m: "st \<in> set (drop (length (publishedStorages (GoRestfulContainer ss)))
                          (publishedStorages (GoRestfulContainer ss')))" and a: "a \<in> snd ` set st"
    from m have "st = publishedStorage e groups" by (rule InstallShadowAPIGroups_storages [OF run])
    with a obtain k where "(k, a) \<in> set (publishedStorage e groups)" by auto
    with set_publishedStorage [of e groups] obtain n where "(n, a) \<in> set (mirrored e groups)"
      by (fastforce simp: lowered_def)
    then show "rest_group a \<noteq> ag_Name (agr_Group g)" by (rule entries)
  qed
  from 1 2 3 show ?thesis by (intro conjI)
qed

text \<open>
  C1 at a discovery of \<open>apps\<close> and \<open>clusters.clusternet.io\<close>: the kind of the latter is
  not registered.
\<close>

theorem InstallShadowAPIGroups_exclusion_witness:
  "HasSuffix (ag_Name (agr_Group (exampleGroup ''clusters.clusternet.io'' ''v1beta1''
        [exampleResource ''managedclusters'' ''ManagedCluster'']))) clusternetGroupSuffix \<and>
   \<lparr>gvk_Group = ''clusters.clusternet.io'', gvk_Version = ''v1beta1'', gvk_Kind = ''ManagedCluster''\<rparr>
     \<notin> set (drop (length (Scheme emptyServer))
         (Scheme (fst (InstallShadowAPIGroups hubEnv emptyServer
            ([exampleGroup ''apps'' ''v1'' [deployments],
              exampleGroup ''clusters.clusternet.io'' ''v1beta1''
                [exampleResource ''managedclusters'' ''ManagedCluster'']], None)))))"
proof -
  let ?g = "exampleGroup ''clusters.clusternet.io'' ''v1beta1''
              [exampleResource ''managedclusters'' ''ManagedCluster'']"
  let ?groups = "[exampleGroup ''apps'' ''v1'' [deployments], ?g]"
  let ?run = "InstallShadowAPIGroups hubEnv emptyServer (?groups, None)"
  have h: "HasSuffix (ag_Name (agr_Group ?g)) clusternetGroupSuffix"
    by (simp add: exampleGroup_def HasSuffix_def clusternetGroupSuffix_def)
  have n: "ag_Name (agr_Group ?g) = ''clusters.clusternet.io''" by (simp add: exampleGroup_def)
  have "?run = (fst ?run, snd ?run)" by simp
  from InstallShadowAPIGroups_exclusion [OF this, of ?g] h
  have "\<forall>k \<in> set (drop (length (Scheme emptyServer)) (Scheme (fst ?run))).
          gvk_Group k \<noteq> ''clusters.clusternet.io''"
    unfolding n by simp
  with h show ?thesis by fastforce
qed







section \<open>Properties of the cluster status controller\<close>

subsection \<open>Node statistics\<close>










subsection \<open>The stored status and its copies\<close>

lemma sound_started: "sound (started c)" if "clusterStatus c = None"
  using that by (simp add: sound_def started_def)

lemma collected_config [simp]: "collected (c\<lparr>clusterStatus := x\<rparr>) obs = collected c obs"
  by (simp add: collected_def split: option.splits prod.splits)

lemma lastCollected_config [simp]: "lastCollected (c\<lparr>clusterStatus := x\<rparr>) evs = lastCollected c evs"
  by (induction evs) (auto split: option.splits event.splits)

lemma collecting_Some:
  "collectingClusterStatus c (h :: 'a::len word heap) obs = Some r \<Longrightarrow>
     \<exists>(ns :: 'a word NodeStatistics) gitVersion platform.
        getNodeStatistics (obs_nodes obs) = Some ns \<and>
        obs_clusterVersion obs = Some (gitVersion, platform)"
  by (auto simp: collectingClusterStatus_def split: option.splits prod.splits)

lemma step_Collect:
  assumes "sound (w :: 'a::len word world)" and "step w (CollectStatus obs) = Some w'"
  shows "sound w' \<and> stored w' = collected (ctrl w) obs \<and> stored w' \<noteq> None \<and>
         clusterStatus (ctrl w') \<noteq> None \<and>
         ctrl w' = (ctrl w)\<lparr>clusterStatus := clusterStatus (ctrl w')\<rparr>"
proof -
  from assms(2) obtain r where r: "collectingClusterStatus (ctrl w) (heap w) obs = Some r"
    by (cases "collectingClusterStatus (ctrl w) (heap w) obs") auto
  from collecting_Some [OF r] obtain ns :: "'a word NodeStatistics" and gitVersion platform where
    ns: "getNodeStatistics (obs_nodes obs) = Some ns" and
    cv: "obs_clusterVersion obs = Some (gitVersion, platform)"
    by blast
  obtain capacity allocatable where rl: "nodeResourceLists (obs_nodes obs) = (capacity, allocatable)"
    by (cases "nodeResourceLists (obs_nodes obs)")
  have fresh: "a < length (heap w)" if "a \<in> set (handed w)" for a
    using assms(1) that by (simp add: sound_def)
  show ?thesis
  proof (cases "clusterStatus (ctrl w)")
    case None
    with assms(2) ns cv rl show ?thesis
      by (auto simp: collectingClusterStatus_def setClusterStatus_def getNodeResource_def new_def
            sound_def stored_def statusAt_def load_def resourceListAt_def listPointer_def
            collected_def nth_append Let_def dest!: fresh)
  next
    case (Some p)
    with assms(2) ns cv rl show ?thesis
      by (auto simp: collectingClusterStatus_def setClusterStatus_def getNodeResource_def new_def
            sound_def stored_def statusAt_def load_def resourceListAt_def listPointer_def
            collected_def nth_append Let_def dest!: fresh)
  qed
qed

lemma GetClusterStatus_nil:
  "clusterStatus c = None \<Longrightarrow> GetClusterStatus c h = (None, h)"
  by (simp add: GetClusterStatus_def)

text \<open>The copy: a fresh object with fresh resource lists, equal in value to the stored status.\<close>

lemma GetClusterStatus_copy:
  assumes "sound w" and "clusterStatus (ctrl w) = Some p"
  shows "\<exists>q h' s'. GetClusterStatus (ctrl w) (heap w) = (Some q, h') \<and>
           length (heap w) \<le> q \<and> q < length h' \<and>
           take (length (heap w)) h' = heap w \<and>
           h' ! q = StatusObject s' \<and>
           (\<forall>a. Allocatable s' = Some a \<or> Capacity s' = Some a \<longrightarrow>
                 length (heap w) \<le> a \<and> a < length h') \<and>
           statusAt h' q = statusAt (heap w) p"
proof -
  from assms obtain s where s: "p < length (heap w)" "heap w ! p = StatusObject s"
    "listPointer w (Allocatable s)" "listPointer w (Capacity s)"
    by (auto simp: sound_def)
  obtain al where al: "Allocatable s = al" by simp
  obtain cp where cp: "Capacity s = cp" by simp
  let ?n = "length (heap w)"
  have ptr: "\<exists>m. a < ?n \<and> heap w ! a = ResourceListObject m"
    if "al = Some a \<or> cp = Some a" for a
    using that s(3,4) al cp by (auto simp: listPointer_def)
  show ?thesis
  proof (cases al)
    case None
    show ?thesis
    proof (cases cp)
      case nc: None
      have eq: "GetClusterStatus (ctrl w) (heap w) =
                  (Some ?n, heap w @ [StatusObject (s\<lparr>Allocatable := None, Capacity := None\<rparr>)])"
        using None nc al cp s assms(2)
        by (simp add: GetClusterStatus_def DeepCopy_def copyResourceList_def new_def load_def Let_def)
      show ?thesis unfolding eq using None nc al cp s
        by (simp add: statusAt_def load_def resourceListAt_def nth_append)
    next
      case sc: (Some b)
      from ptr [of b] sc obtain mb where b: "b < ?n" "heap w ! b = ResourceListObject mb" by auto
      have eq: "GetClusterStatus (ctrl w) (heap w) =
                  (Some ?n, heap w @ [StatusObject (s\<lparr>Allocatable := None, Capacity := Some (Suc ?n)\<rparr>),
                                      ResourceListObject mb])"
        using None sc al cp s b assms(2)
        by (simp add: GetClusterStatus_def DeepCopy_def copyResourceList_def new_def load_def Let_def
              nth_append list_update_append)
      show ?thesis unfolding eq using None sc al cp s b
        by (simp add: statusAt_def load_def resourceListAt_def nth_append)
    qed
  next
    case (Some a)
    from ptr [of a] Some obtain ma where a: "a < ?n" "heap w ! a = ResourceListObject ma" by auto
    show ?thesis
    proof (cases cp)
      case nc: None
      have eq: "GetClusterStatus (ctrl w) (heap w) =
                  (Some ?n, heap w @ [StatusObject (s\<lparr>Allocatable := Some (Suc ?n), Capacity := None\<rparr>),
                                      ResourceListObject ma])"
        using Some nc al cp s a assms(2)
        by (simp add: GetClusterStatus_def DeepCopy_def copyResourceList_def new_def load_def Let_def
              nth_append list_update_append)
      show ?thesis unfolding eq using Some nc al cp s a
        by (simp add: statusAt_def load_def resourceListAt_def nth_append)
    next
      case sc: (Some b)
      from ptr [of b] sc obtain mb where b: "b < ?n" "heap w ! b = ResourceListObject mb" by auto
      have eq: "GetClusterStatus (ctrl w) (heap w) =
                  (Some ?n, heap w @ [StatusObject (s\<lparr>Allocatable := Some (Suc ?n),
                                                        Capacity := Some (Suc (Suc ?n))\<rparr>),
                                      ResourceListObject ma, ResourceListObject mb])"
        using Some sc al cp s a b assms(2)
        by (simp add: GetClusterStatus_def DeepCopy_def copyResourceList_def new_def load_def Let_def
              nth_append list_update_append)
      show ?thesis unfolding eq using Some sc al cp s a b
        by (simp add: statusAt_def load_def resourceListAt_def nth_append)
    qed
  qed
qed

text \<open>
  Growing the heap and writing to handed-out addresses leaves the stored status alone.
\<close>

lemma stored_frame:
  assumes snd: "sound w"
    and len: "length (heap w) \<le> length h'"
    and same: "\<And>a. a < length (heap w) \<Longrightarrow> a \<notin> set (handed w) \<Longrightarrow> h' ! a = heap w ! a"
    and hd: "\<And>a. a \<in> set hd' \<Longrightarrow> a < length h'"
    and old: "\<And>a. a \<in> set hd' \<Longrightarrow> a < length (heap w) \<Longrightarrow> a \<in> set (handed w)"
  shows "sound (w\<lparr>heap := h', handed := hd'\<rparr>) \<and>
         stored (w\<lparr>heap := h', handed := hd'\<rparr>) = stored w"
proof (cases "clusterStatus (ctrl w)")
  case None
  then show ?thesis using hd by (auto simp: sound_def stored_def)
next
  case (Some p)
  with snd obtain s where s: "p < length (heap w)" "p \<notin> set (handed w)"
    "heap w ! p = StatusObject s" "listPointer w (Allocatable s)" "listPointer w (Capacity s)"
    by (auto simp: sound_def)
  have keep: "a < length h' \<and> a \<notin> set hd' \<and> h' ! a = heap w ! a"
    if "a < length (heap w)" "a \<notin> set (handed w)" for a
    using that len same [of a] old [of a] by auto
  have lp: "listPointer (w\<lparr>heap := h', handed := hd'\<rparr>) ao \<and> resourceListAt h' ao = resourceListAt (heap w) ao"
    if "listPointer w ao" for ao
  proof (cases ao)
    case None
    then show ?thesis by (simp add: listPointer_def resourceListAt_def)
  next
    case (Some a)
    with that obtain m where "a < length (heap w)" "a \<notin> set (handed w)" "heap w ! a = ResourceListObject m"
      by (auto simp: listPointer_def)
    with keep [of a] Some show ?thesis
      by (simp add: listPointer_def resourceListAt_def load_def)
  qed
  from keep [OF s(1,2)] s(3) lp [OF s(4)] lp [OF s(5)] Some hd s(1) show ?thesis
    by (auto simp: sound_def stored_def statusAt_def load_def)
qed

lemma step_Get:
  assumes "sound w" and "step w GetStatus = Some w'"
  shows "sound w' \<and> stored w' = stored w \<and> ctrl w' = ctrl w"
proof (cases "clusterStatus (ctrl w)")
  case None
  with assms show ?thesis by (auto simp: GetClusterStatus_nil)
next
  case (Some p)
  from GetClusterStatus_copy [OF assms(1) Some] obtain q h' where
    g: "GetClusterStatus (ctrl w) (heap w) = (Some q, h')" "take (length (heap w)) h' = heap w"
       "q < length h'" "length (heap w) \<le> q"
    by blast
  let ?hd = "handed w @ [length (heap w)..<length h']"
  have w': "w' = w\<lparr>heap := h', handed := ?hd\<rparr>" using assms(2) g(1) by simp
  have len: "length (heap w) \<le> length h'" using g(3,4) by simp
  have same: "h' ! a = heap w ! a" if "a < length (heap w)" for a
    using that g(2) by (metis nth_take)
  have inb: "a < length (heap w)" if "a \<in> set (handed w)" for a
    using that assms(1) by (simp add: sound_def)
  have "sound (w\<lparr>heap := h', handed := ?hd\<rparr>) \<and> stored (w\<lparr>heap := h', handed := ?hd\<rparr>) = stored w"
  proof (rule stored_frame [OF assms(1) len])
    show "h' ! a = heap w ! a" if "a < length (heap w)" for a using that by (rule same)
    show "a < length h'" if "a \<in> set ?hd" for a using that inb [of a] len by auto
    show "a \<in> set (handed w)" if "a \<in> set ?hd" "a < length (heap w)" for a using that by auto
  qed
  then show ?thesis by (simp add: w')
qed

lemma step_CallerWrite:
  assumes "sound w" and "step w (CallerWrite a ob) = Some w'"
  shows "sound w' \<and> stored w' = stored w \<and> ctrl w' = ctrl w"
proof (cases "a \<in> set (handed w)")
  case False
  with assms show ?thesis by simp
next
  case True
  let ?h = "(heap w)[a := ob]"
  from assms(2) True have "w' = w\<lparr>heap := ?h\<rparr>" by simp
  then have w': "w' = w\<lparr>heap := ?h, handed := handed w\<rparr>" by simp
  have inb: "b < length (heap w)" if "b \<in> set (handed w)" for b
    using that assms(1) by (simp add: sound_def)
  have "sound (w\<lparr>heap := ?h, handed := handed w\<rparr>) \<and>
        stored (w\<lparr>heap := ?h, handed := handed w\<rparr>) = stored w"
  proof (rule stored_frame [OF assms(1)])
    show "length (heap w) \<le> length ?h" by simp
    show "?h ! b = heap w ! b" if "b < length (heap w)" "b \<notin> set (handed w)" for b
    proof -
      from that True have "a \<noteq> b" by auto
      then show ?thesis by simp
    qed
    show "b < length ?h" if "b \<in> set (handed w)" for b using that inb by simp
    show "b \<in> set (handed w)" if "b \<in> set (handed w)" for b using that .
  qed
  then show ?thesis by (simp add: w')
qed

lemma run_stored:
  assumes "sound w" and "run w evs = Some w'"
  shows "sound w' \<and>
         stored w' = (case lastCollected (ctrl w) evs of Some v \<Rightarrow> Some v | None \<Rightarrow> stored w) \<and>
         (lastCollected (ctrl w) evs = None \<longleftrightarrow> (\<forall>ev \<in> set evs. \<not> isCollect ev))"
  using assms
proof (induction evs arbitrary: w)
  case Nil
  then show ?case by simp
next
  case (Cons ev evs)
  from Cons.prems(2) obtain w1 where st: "step w ev = Some w1" and rn: "run w1 evs = Some w'"
    by (cases "step w ev") auto
  show ?case
  proof (cases ev)
    case (CollectStatus obs)
    note sc = step_Collect [OF Cons.prems(1) st [unfolded CollectStatus]]
    have 1: "sound w1" "stored w1 = collected (ctrl w) obs" "stored w1 \<noteq> None"
      "ctrl w1 = (ctrl w)\<lparr>clusterStatus := clusterStatus (ctrl w1)\<rparr>"
      using sc by blast+
    from 1(4) have cfg: "lastCollected (ctrl w1) evs = lastCollected (ctrl w) evs"
      by (metis lastCollected_config)
    obtain v where v: "collected (ctrl w) obs = Some v" "stored w1 = Some v"
      using 1(2,3) by (cases "stored w1") auto
    note ih = Cons.IH [OF 1(1) rn, unfolded cfg]
    show ?thesis
    proof (cases "lastCollected (ctrl w) evs")
      case None
      with ih have "sound w'" "stored w' = stored w1" "\<forall>ev \<in> set evs. \<not> isCollect ev"
        by simp_all
      with None v CollectStatus show ?thesis by simp
    next
      case (Some u)
      with ih have "sound w'" "stored w' = Some u" "\<not> (\<forall>ev \<in> set evs. \<not> isCollect ev)"
        by simp_all
      with Some CollectStatus show ?thesis by simp
    qed
  next
    case GetStatus
    from step_Get [OF Cons.prems(1) st [unfolded GetStatus]]
    have 1: "sound w1" "stored w1 = stored w" "ctrl w1 = ctrl w" by auto
    from Cons.IH [OF 1(1) rn] 1(2,3) GetStatus show ?thesis
      by (auto split: option.splits)
  next
    case (CallerWrite a ob)
    from step_CallerWrite [OF Cons.prems(1) st [unfolded CallerWrite]]
    have 1: "sound w1" "stored w1 = stored w" "ctrl w1 = ctrl w" by auto
    from Cons.IH [OF 1(1) rn] 1(2,3) CallerWrite show ?thesis
      by (auto split: option.splits)
  qed
qed

lemma stored_None_iff: "sound w \<Longrightarrow> stored w = None \<longleftrightarrow> clusterStatus (ctrl w) = None"
  by (auto simp: sound_def stored_def statusAt_def load_def split: option.splits)

text \<open>
  Claim C9 (status copies). After any run of a new controller that did not panic,
  \<open>GetClusterStatus\<close> returns nil exactly when no round of collection is among the
  events; the stored status has the value the last round stored, whatever callers wrote
  to the objects they were handed; and a pointer \<open>GetClusterStatus\<close> returns has the value
  of the stored status, while the object behind it and the resource lists it refers to
  are newly allocated and the heap below them is as before.
\<close>

theorem GetClusterStatus_deep_copy:
  assumes "run (started (NewController url parent pusher socket)) evs = Some (w :: 'a::len word world)"
  shows "(fst (GetClusterStatus (ctrl w) (heap w)) = None \<longleftrightarrow> (\<forall>ev \<in> set evs. \<not> isCollect ev)) \<and>
         stored w = lastCollected (NewController url parent pusher socket) evs \<and>
         (\<forall>q h'. GetClusterStatus (ctrl w) (heap w) = (Some q, h') \<longrightarrow>
            statusAt h' q = stored w \<and>
            length (heap w) \<le> q \<and>
            (\<forall>s'. load h' q = Some (StatusObject s') \<longrightarrow>
               (\<forall>a. Allocatable s' = Some a \<or> Capacity s' = Some a \<longrightarrow> length (heap w) \<le> a)) \<and>
            take (length (heap w)) h' = heap w)"
proof -
  let ?c = "NewController url parent pusher socket"
  have s0: "sound (started ?c :: 'a word world)" by (simp add: sound_started NewController_def)
  have st0: "stored (started ?c :: 'a word world) = None" by (simp add: stored_def started_def NewController_def)
  have c0: "ctrl (started ?c :: 'a word world) = ?c" by (simp add: started_def)
  from run_stored [OF s0 assms] have w: "sound w"
    "stored w = lastCollected ?c evs"
    "lastCollected ?c evs = None \<longleftrightarrow> (\<forall>ev \<in> set evs. \<not> isCollect ev)"
    by (simp_all add: c0 st0 split: option.splits)
  have nil: "fst (GetClusterStatus (ctrl w) (heap w)) = None \<longleftrightarrow> clusterStatus (ctrl w) = None"
  proof (cases "clusterStatus (ctrl w)")
    case None
    then show ?thesis by (simp add: GetClusterStatus_nil)
  next
    case (Some p)
    from GetClusterStatus_copy [OF w(1) Some] Some show ?thesis by auto
  qed
  have 1: "fst (GetClusterStatus (ctrl w) (heap w)) = None \<longleftrightarrow> (\<forall>ev \<in> set evs. \<not> isCollect ev)"
    using nil stored_None_iff [OF w(1)] w(2,3) by simp
  have 3: "statusAt h' q = stored w \<and> length (heap w) \<le> q \<and>
            (\<forall>s'. load h' q = Some (StatusObject s') \<longrightarrow>
               (\<forall>a. Allocatable s' = Some a \<or> Capacity s' = Some a \<longrightarrow> length (heap w) \<le> a)) \<and>
            take (length (heap w)) h' = heap w"
    if g: "GetClusterStatus (ctrl w) (heap w) = (Some q, h')" for q h'
  proof -
    from g obtain p where p: "clusterStatus (ctrl w) = Some p"
      by (cases "clusterStatus (ctrl w)") (auto simp: GetClusterStatus_nil)
    from GetClusterStatus_copy [OF w(1) p] g obtain s' where
      "length (heap w) \<le> q" "q < length h'" "take (length (heap w)) h' = heap w"
      "h' ! q = StatusObject s'"
      "\<forall>a. Allocatable s' = Some a \<or> Capacity s' = Some a \<longrightarrow> length (heap w) \<le> a \<and> a < length h'"
      "statusAt h' q = statusAt (heap w) p"
      by auto
    then show ?thesis using p by (auto simp: stored_def load_def)
  qed
  from 1 w(2) 3 show ?thesis by blast
qed

text \<open>
  C9 at a run of one collection, one call of \<open>GetClusterStatus\<close> and a caller that empties
  a resource list of its copy.
\<close>

theorem GetClusterStatus_deep_copy_witness:
  "stored (the (run (started (NewController ''https://child'' ''https://parent'' False True))
                  [CollectStatus quietObservation, GetStatus,
                   CallerWrite 5 (ResourceListObject Map.empty) :: 32 word event]))
     = collected (NewController ''https://child'' ''https://parent'' False True) quietObservation \<and>
   fst (GetClusterStatus
          (ctrl (the (run (started (NewController ''https://child'' ''https://parent'' False True))
                  [CollectStatus quietObservation, GetStatus,
                   CallerWrite 5 (ResourceListObject Map.empty) :: 32 word event])))
          (heap (the (run (started (NewController ''https://child'' ''https://parent'' False True))
                  [CollectStatus quietObservation, GetStatus,
                   CallerWrite 5 (ResourceListObject Map.empty) :: 32 word event])))) \<noteq> None"
proof -
  let ?c = "NewController ''https://child'' ''https://parent'' False True"
  let ?evs = "[CollectStatus quietObservation, GetStatus,
               CallerWrite 5 (ResourceListObject Map.empty) :: 32 word event]"
  have "run (started ?c) ?evs \<noteq> None"
    by (simp add: started_def NewController_def quietObservation_def collectingClusterStatus_def
          getNodeStatistics_def getNodeResource_def nodeResourceLists_def setClusterStatus_def
          GetClusterStatus_def DeepCopy_def copyResourceList_def new_def load_def Let_def)
  then have r: "run (started ?c) ?evs = Some (the (run (started ?c) ?evs))" by simp
  have lc: "lastCollected ?c ?evs = collected ?c quietObservation"
    by (simp add: collected_def quietObservation_def getNodeStatistics_def)
  have col: "\<not> (\<forall>ev \<in> set ?evs. \<not> isCollect ev)" by simp
  from GetClusterStatus_deep_copy [OF r] lc col show ?thesis by simp
qed

end
